theory Spec2Isabelle
  imports Main "HOL-Library.Sublist"
begin

section \<open>JavaScript values\<close>

text \<open>
  A fragment payload is whatever \<^verbatim>\<open>JSON.parse\<close> (or the body parser) produced: a JSON
  value. \<^verbatim>\<open>undefined\<close> is not a JSON value; where the code can see it (a missing
  property, a missing argument) the model uses \<open>None\<close> of an option type.

  Numbers are kept abstract (the type parameter \<open>'n\<close>): the code only tests them for
  truth and turns them into text, and both operations belong to the JavaScript runtime.
  They are the fields of the \<open>runtime\<close> record. The numbers of a payload are finite:
  a payload reaches the code through the store file, and JSON has no other numbers.

  A string is the list of its characters; \<open>char\<close> covers the code units up to 0xFF.
  An object is the list of its properties, each key bound once, in the order in which
  the runtime enumerates them.
\<close>

datatype 'n json =
    JNull
  | JBool bool
  | JNum 'n
  | JStr string
  | JArr "'n json list"
  | JObj "(string \<times> 'n json) list"

record 'n runtime =
  num_falsy :: "'n \<Rightarrow> bool"
  num_text :: "'n \<Rightarrow> string"

definition dquote :: char where
  "dquote = CHR 0x22"

definition backslash :: char where
  "backslash = CHR 0x5C"

datatype error =
    TypeError
  | MissingApiKey
  | LLMFailed "int option" string
  | EmptyContent

text \<open>\<^verbatim>\<open>ToBoolean\<close>: what \<^verbatim>\<open>if (x)\<close>, \<^verbatim>\<open>!x\<close> and \<^verbatim>\<open>x && y\<close> test.\<close>

fun truthy :: "'n runtime \<Rightarrow> 'n json \<Rightarrow> bool" where
  "truthy rt JNull = False"
| "truthy rt (JBool b) = b"
| "truthy rt (JNum n) = (\<not> num_falsy rt n)"
| "truthy rt (JStr s) = (s \<noteq> [])"
| "truthy rt (JArr xs) = True"
| "truthy rt (JObj kvs) = True"

fun truthyOpt :: "'n runtime \<Rightarrow> 'n json option \<Rightarrow> bool" where
  "truthyOpt rt None = False"
| "truthyOpt rt (Some v) = truthy rt v"

text \<open>
  Reading the property \<open>k\<close> of a value, for a key that names no built-in property
  (the code reads \<^verbatim>\<open>segments\<close> and \<^verbatim>\<open>text\<close> only): \<^verbatim>\<open>null.k\<close> throws a TypeError, an
  object yields its own property or \<^verbatim>\<open>undefined\<close>, every other value yields
  \<^verbatim>\<open>undefined\<close>.
\<close>

fun getProp :: "string \<Rightarrow> 'n json \<Rightarrow> error + 'n json option" where
  "getProp k JNull = Inl TypeError"
| "getProp k (JObj kvs) = Inr (map_of kvs k)"
| "getProp k (JBool b) = Inr None"
| "getProp k (JNum n) = Inr None"
| "getProp k (JStr s) = Inr None"
| "getProp k (JArr xs) = Inr None"

text \<open>Running a list of computations in order; the first exception ends the run.\<close>

fun collect :: "('e + 'a) list \<Rightarrow> 'e + 'a list" where
  "collect [] = Inr []"
| "collect (r # rs) =
     (case r of
        Inl e \<Rightarrow> Inl e
      | Inr x \<Rightarrow> (case collect rs of Inl e \<Rightarrow> Inl e | Inr xs \<Rightarrow> Inr (x # xs)))"

fun joinStrings :: "string \<Rightarrow> string list \<Rightarrow> string" where
  "joinStrings sep [] = []"
| "joinStrings sep [s] = s"
| "joinStrings sep (s # t # ts) = s @ sep @ joinStrings sep (t # ts)"

text \<open>
  \<^verbatim>\<open>ToString\<close> of a JSON value, as \<^verbatim>\<open>Array.prototype.join\<close> applies it to an element.
  An array prints as its elements joined by a comma, \<^verbatim>\<open>null\<close> elements as the empty
  string. A plain object prints as \<^verbatim>\<open>[object Object]\<close> through the inherited
  \<^verbatim>\<open>toString\<close>; an own property of that name is data, not a function, so the
  conversion finds no method that yields a primitive and throws a TypeError.
\<close>

fun toText :: "'n runtime \<Rightarrow> 'n json \<Rightarrow> error + string" where
  "toText rt JNull = Inr ''null''"
| "toText rt (JBool b) = Inr (if b then ''true'' else ''false'')"
| "toText rt (JNum n) = Inr (num_text rt n)"
| "toText rt (JStr s) = Inr s"
| "toText rt (JArr xs) =
     (case collect (map (\<lambda>x. if x = JNull then Inr [] else toText rt x) xs) of
        Inl e \<Rightarrow> Inl e
      | Inr ts \<Rightarrow> Inr (joinStrings '','' ts))"
| "toText rt (JObj kvs) =
     (if ''toString'' \<in> set (map fst kvs) then Inl TypeError else Inr ''[object Object]'')"

fun elemText :: "'n runtime \<Rightarrow> 'n json option \<Rightarrow> error + string" where
  "elemText rt None = Inr []"
| "elemText rt (Some v) = (if v = JNull then Inr [] else toText rt v)"

text \<open>\<^verbatim>\<open>xs.join(sep)\<close> on an array whose elements are JSON values or \<^verbatim>\<open>undefined\<close>.\<close>

definition join :: "'n runtime \<Rightarrow> string \<Rightarrow> 'n json option list \<Rightarrow> error + string" where
  "join rt sep xs =
     (case collect (map (elemText rt) xs) of
        Inl e \<Rightarrow> Inl e
      | Inr ts \<Rightarrow> Inr (joinStrings sep ts))"

text \<open>
  \<^verbatim>\<open>JSON.stringify(value)\<close> on a JSON value, with no indentation. A string is quoted:
  the quote and the backslash get a backslash, the control characters their short
  escape or \<^verbatim>\<open>\u00XX\<close>. A finite number prints as its text form. A property of a
  JSON value is never a function, so no \<^verbatim>\<open>toJSON\<close> is called.
\<close>

definition hexDigit :: "nat \<Rightarrow> char" where
  "hexDigit n = ''0123456789abcdef'' ! n"

definition quoteChar :: "char \<Rightarrow> string" where
  "quoteChar c =
     (if c = CHR 0x08 then [backslash, CHR ''b'']
      else if c = CHR 0x09 then [backslash, CHR ''t'']
      else if c = CHR 0x0A then [backslash, CHR ''n'']
      else if c = CHR 0x0C then [backslash, CHR ''f'']
      else if c = CHR 0x0D then [backslash, CHR ''r'']
      else if c = dquote then [backslash, dquote]
      else if c = backslash then [backslash, backslash]
      else if (of_char c :: nat) < 32 then
        [backslash, CHR ''u'', CHR ''0'', CHR ''0'',
         hexDigit (of_char c div 16), hexDigit (of_char c mod 16)]
      else [c])"

definition quoteJSONString :: "string \<Rightarrow> string" where
  "quoteJSONString x = [dquote] @ concat (map quoteChar x) @ [dquote]"

fun stringify :: "'n runtime \<Rightarrow> 'n json \<Rightarrow> string" where
  "stringify rt JNull = ''null''"
| "stringify rt (JBool b) = (if b then ''true'' else ''false'')"
| "stringify rt (JNum n) = num_text rt n"
| "stringify rt (JStr x) = quoteJSONString x"
| "stringify rt (JArr xs) = ''['' @ joinStrings '','' (map (stringify rt) xs) @ '']''"
| "stringify rt (JObj kvs) =
     ''{'' @ joinStrings '','' (map (\<lambda>(k, v). quoteJSONString k @ '':'' @ stringify rt v) kvs) @ ''}''"

section \<open>Fragment text extraction (webhook-manager.js)\<close>

text \<open>The value of \<^verbatim>\<open>data && data.k\<close>.\<close>

definition guardedProp :: "'n runtime \<Rightarrow> 'n json \<Rightarrow> string \<Rightarrow> error + 'n json option" where
  "guardedProp rt data k = (if truthy rt data then getProp k data else Inr (Some data))"

text \<open>
  \<^verbatim>\<open>data.segments.map(segment => segment.text).join(' ')\<close>, reached when
  \<^verbatim>\<open>data.segments\<close> is truthy. Only an array has a \<^verbatim>\<open>map\<close> method; on any other truthy
  value the call throws a TypeError, as does \<^verbatim>\<open>segment.text\<close> on a \<^verbatim>\<open>null\<close> segment.
\<close>

fun segmentsText :: "'n runtime \<Rightarrow> 'n json \<Rightarrow> error + string" where
  "segmentsText rt (JArr segs) =
     (case collect (map (getProp ''text'') segs) of
        Inl e \<Rightarrow> Inl e
      | Inr texts \<Rightarrow> join rt '' '' texts)"
| "segmentsText rt JNull = Inl TypeError"
| "segmentsText rt (JBool b) = Inl TypeError"
| "segmentsText rt (JNum n) = Inl TypeError"
| "segmentsText rt (JStr s) = Inl TypeError"
| "segmentsText rt (JObj kvs) = Inl TypeError"

fun isString :: "'n json \<Rightarrow> bool" where
  "isString (JStr s) = True"
| "isString JNull = False"
| "isString (JBool b) = False"
| "isString (JNum n) = False"
| "isString (JArr xs) = False"
| "isString (JObj kvs) = False"

text \<open>
  \<^verbatim>\<open>extractTextFromData\<close>. The result is the value the function returns: a string
  from rules 1, 2 and 4, and whatever \<^verbatim>\<open>data.text\<close> holds from rule 3.
\<close>

definition extractTextFromData :: "'n runtime \<Rightarrow> 'n json \<Rightarrow> error + 'n json" where
  "extractTextFromData rt data =
     (if isString data then Inr data
      else
        (case guardedProp rt data ''segments'' of
           Inl e \<Rightarrow> Inl e
         | Inr segs \<Rightarrow>
             if truthyOpt rt segs then
               (case segmentsText rt (the segs) of Inl e \<Rightarrow> Inl e | Inr s \<Rightarrow> Inr (JStr s))
             else
               (case guardedProp rt data ''text'' of
                  Inl e \<Rightarrow> Inl e
                | Inr txt \<Rightarrow>
                    if truthyOpt rt txt then Inr (the txt)
                    else Inr (JStr (stringify rt data)))))"

section \<open>Fragment store and consumption tracker (webhook-manager.js)\<close>

text \<open>
  A stored fragment. The field \<open>webhook_id\<close> is the source's \<^verbatim>\<open>id\<close>; \<open>receivedAt\<close> is
  the instant of receipt in milliseconds (the source stores its ISO text and compares
  the instants).
\<close>

record 'n webhook =
  webhook_id :: string
  data :: "'n json"
  receivedAt :: int

text \<open>
  The content of \<^verbatim>\<open>processed.json\<close>. A field the file may lack is an option:
  \<open>None\<close> is \<^verbatim>\<open>undefined\<close> (or \<^verbatim>\<open>null\<close> for the timestamp).
\<close>

record processed =
  processedIds :: "string list option"
  lastProcessedAt :: "int option"
  totalProcessed :: "nat option"

text \<open>The content of \<^verbatim>\<open>processor_state.json\<close>; \<open>stateProcessedAt\<close> is its \<^verbatim>\<open>lastProcessedAt\<close>.\<close>

record procState =
  lastProcessed :: string
  processedCount :: nat
  stateProcessedAt :: "int option"

text \<open>
  The files the pipeline reads and writes (\<open>None\<close>: the file does not exist), the
  note documents by path, and the server's variable \<^verbatim>\<open>currentNotesFilePath\<close>. A file
  holds what the code last saved in it. The note documents are taken to be other files
  than the pipeline's own five.
\<close>

record 'n system =
  webhooksFile :: "'n webhook list option"
  processedFile :: "processed option"
  stateFile :: "procState option"
  promptFile :: "string option"
  styleFile :: "string option"
  noteFiles :: "string \<Rightarrow> string option"
  currentNotesFilePath :: "string option"

definition batchSize :: nat where
  "batchSize = 10"

definition mergeSeparator :: string where
  "mergeSeparator = '' ''"

definition loadWebhooks :: "'n system \<Rightarrow> 'n webhook list" where
  "loadWebhooks s = (case webhooksFile s of None \<Rightarrow> [] | Some ws \<Rightarrow> ws)"

definition saveWebhooks :: "'n webhook list \<Rightarrow> 'n system \<Rightarrow> 'n system" where
  "saveWebhooks ws s = s\<lparr>webhooksFile := Some ws\<rparr>"

definition loadProcessed :: "'n system \<Rightarrow> processed" where
  "loadProcessed s =
     (case processedFile s of
        None \<Rightarrow> \<lparr>processedIds = Some [], lastProcessedAt = None, totalProcessed = None\<rparr>
      | Some p \<Rightarrow> p)"

definition saveProcessed :: "processed \<Rightarrow> 'n system \<Rightarrow> 'n system" where
  "saveProcessed p s = s\<lparr>processedFile := Some p\<rparr>"

text \<open>
  \<^verbatim>\<open>addWebhook\<close>. The fresh id (clock and random suffix) and the receipt time come from
  the environment. The payload may be \<^verbatim>\<open>undefined\<close>.
\<close>

definition addWebhook ::
  "'n runtime \<Rightarrow> string \<Rightarrow> int \<Rightarrow> 'n json option \<Rightarrow> 'n system \<Rightarrow> 'n webhook option \<times> 'n system" where
  "addWebhook rt newId now payload s =
     (if \<not> truthyOpt rt payload then (None, s)
      else
        (let webhooks = loadWebhooks s;
             newWebhook = \<lparr>webhook_id = newId, data = the payload, receivedAt = now\<rparr>
         in (Some newWebhook, saveWebhooks (webhooks @ [newWebhook]) s)))"

text \<open>\<^verbatim>\<open>processed.processedIds || []\<close>.\<close>

definition idsOrEmpty :: "processed \<Rightarrow> string list" where
  "idsOrEmpty p = (case processedIds p of None \<Rightarrow> [] | Some ids \<Rightarrow> ids)"

text \<open>The filter both \<^verbatim>\<open>getUnprocessedBatch\<close> and \<^verbatim>\<open>getAllUnprocessed\<close> start with.\<close>

definition unprocessed :: "'n system \<Rightarrow> 'n webhook list" where
  "unprocessed s =
     (let webhooks = loadWebhooks s;
          processedIds = idsOrEmpty (loadProcessed s)
      in filter (\<lambda>w. webhook_id w \<notin> set processedIds) webhooks)"

record 'n batch =
  items :: "'n webhook list"
  mergedText :: string
  nextText :: "'n json"
  hasMore :: bool

text \<open>\<^verbatim>\<open>getUnprocessedBatch\<close>; \<open>Inr None\<close> is the \<^verbatim>\<open>null\<close> it returns when there is no work.\<close>

definition getUnprocessedBatch :: "'n runtime \<Rightarrow> 'n system \<Rightarrow> error + 'n batch option" where
  "getUnprocessedBatch rt s =
     (let unprocessed = unprocessed s in
      if unprocessed = [] then Inr None
      else
        (let batch = take batchSize unprocessed;
             nextBatch = take batchSize (drop batchSize unprocessed)
         in
           (case collect (map (\<lambda>item. extractTextFromData rt (data item)) batch) of
              Inl e \<Rightarrow> Inl e
            | Inr texts \<Rightarrow>
                (case join rt mergeSeparator (map Some texts) of
                   Inl e \<Rightarrow> Inl e
                 | Inr merged \<Rightarrow>
                     (case (if nextBatch \<noteq> [] then extractTextFromData rt (data (hd nextBatch))
                            else Inr (JStr [])) of
                        Inl e \<Rightarrow> Inl e
                      | Inr next \<Rightarrow>
                          Inr (Some \<lparr>items = batch, mergedText = merged, nextText = next,
                                      hasMore = (length unprocessed > batchSize)\<rparr>))))))"

text \<open>\<^verbatim>\<open>markBatchProcessed\<close>.\<close>

definition markBatchProcessed :: "int \<Rightarrow> 'n webhook list \<Rightarrow> 'n system \<Rightarrow> 'n system" where
  "markBatchProcessed now batchItems s =
     (if batchItems = [] then s
      else
        (let processed = loadProcessed s;
             newIds = map webhook_id batchItems;
             processed1 = processed\<lparr>processedIds := Some (idsOrEmpty processed @ newIds)\<rparr>;
             processed2 = processed1\<lparr>lastProcessedAt := Some now\<rparr>;
             processed3 = processed2\<lparr>totalProcessed :=
               Some ((case totalProcessed processed2 of None \<Rightarrow> 0 | Some n \<Rightarrow> n)
                     + length newIds)\<rparr>
         in saveProcessed processed3 s))"

text \<open>
  \<^verbatim>\<open>cleanup\<close>. \<open>cutoff\<close> is the instant \<^verbatim>\<open>keepDays\<close> calendar days before now. The
  function reads \<^verbatim>\<open>processed.processedIds\<close> without a default: when the field is
  missing, the first use throws and nothing is saved.
\<close>

definition cleanup :: "int \<Rightarrow> 'n system \<Rightarrow> (error + nat) \<times> 'n system" where
  "cleanup cutoff s =
     (let webhooks = loadWebhooks s;
          processed = loadProcessed s
      in
        (case processedIds processed of
           None \<Rightarrow> (Inl TypeError, s)
         | Some ids \<Rightarrow>
             (let filtered = filter (\<lambda>w.
                    let isOld = (receivedAt w < cutoff);
                        isProcessed = (webhook_id w \<in> set ids)
                    in \<not> (isOld \<and> isProcessed)) webhooks;
                  remainingIds = map webhook_id filtered;
                  processed1 = processed\<lparr>processedIds :=
                    Some (filter (\<lambda>i. i \<in> set remainingIds) ids)\<rparr>;
                  removed = length webhooks - length filtered
              in (Inr removed, saveProcessed processed1 (saveWebhooks filtered s)))))"

text \<open>
  \<^verbatim>\<open>webhooks.slice(-maxCount)\<close>: a negative start counts from the end, and \<^verbatim>\<open>-0\<close> is
  the start of the array.
\<close>

definition sliceFromEnd :: "int \<Rightarrow> 'a list \<Rightarrow> 'a list" where
  "sliceFromEnd maxCount xs =
     (let start = - maxCount;
          len = int (length xs)
      in if start < 0 then drop (nat (max (len + start) 0)) xs
         else drop (nat (min start len)) xs)"

text \<open>\<^verbatim>\<open>limitWebhooks\<close>.\<close>

definition limitWebhooks :: "int \<Rightarrow> 'n system \<Rightarrow> (error + nat) \<times> 'n system" where
  "limitWebhooks maxCount s =
     (let webhooks = loadWebhooks s in
      if int (length webhooks) > maxCount then
        (let limited = sliceFromEnd maxCount webhooks;
             s1 = saveWebhooks limited s;
             processed = loadProcessed s1;
             remainingIds = map webhook_id limited
         in
           (case processedIds processed of
              None \<Rightarrow> (Inl TypeError, s1)
            | Some ids \<Rightarrow>
                (let processed1 = processed\<lparr>processedIds :=
                       Some (filter (\<lambda>i. i \<in> set remainingIds) ids)\<rparr>;
                     s2 = saveProcessed processed1 s1;
                     removed = length webhooks - length limited
                 in (Inr removed, s2))))
      else (Inr 0, s))"

text \<open>\<^verbatim>\<open>resetProcessed\<close>.\<close>

definition resetProcessed :: "'n system \<Rightarrow> 'n system" where
  "resetProcessed s =
     saveProcessed \<lparr>processedIds = Some [], lastProcessedAt = None, totalProcessed = None\<rparr> s"

text \<open>
  \<^verbatim>\<open>getAllUnprocessed\<close>. It reads \<^verbatim>\<open>item.text\<close>, a field no stored fragment has, so
  every item contributes \<^verbatim>\<open>undefined\<close> to the join. Nothing in the repository calls it.
\<close>

record 'n allUnprocessed =
  all_items :: "'n webhook list"
  all_mergedText :: "error + string"
  all_count :: nat

definition getAllUnprocessed :: "'n runtime \<Rightarrow> 'n system \<Rightarrow> 'n allUnprocessed" where
  "getAllUnprocessed rt s =
     (let unprocessed = unprocessed s
      in \<lparr>all_items = unprocessed,
          all_mergedText = join rt mergeSeparator (map (\<lambda>item. None) unprocessed),
          all_count = length unprocessed\<rparr>)"

section \<open>Synthesis (processor.js)\<close>

text \<open>
  \<^verbatim>\<open>String.prototype.trim\<close> strips white space and line terminators from both ends;
  these are the ones among the code units up to 0xFF.
\<close>

definition isWhiteSpace :: "char \<Rightarrow> bool" where
  "isWhiteSpace c =
     (c = CHR 0x09 \<or> c = CHR 0x0A \<or> c = CHR 0x0B \<or> c = CHR 0x0C \<or> c = CHR 0x0D \<or>
      c = CHR 0x20 \<or> c = CHR 0xA0)"

definition trim :: "string \<Rightarrow> string" where
  "trim s = rev (dropWhile isWhiteSpace (rev (dropWhile isWhiteSpace s)))"

definition outputFile :: string where
  "outputFile = ''final_notes.md''"

definition loadState :: "'n system \<Rightarrow> procState" where
  "loadState s =
     (case stateFile s of
        None \<Rightarrow> \<lparr>lastProcessed = [], processedCount = 0, stateProcessedAt = None\<rparr>
      | Some st \<Rightarrow> st)"

definition loadUserStyle :: "'n system \<Rightarrow> string" where
  "loadUserStyle s = (case styleFile s of None \<Rightarrow> [] | Some styleContent \<Rightarrow> trim styleContent)"

definition saveState :: "procState \<Rightarrow> 'n system \<Rightarrow> 'n system" where
  "saveState st s = s\<lparr>stateFile := Some st\<rparr>"

text \<open>\<^verbatim>\<open>x.replace(/"/g, '\\"')\<close> on a string: a backslash goes before every double quote.\<close>

definition escapeQuotes :: "string \<Rightarrow> string" where
  "escapeQuotes x = concat (map (\<lambda>c. if c = dquote then [backslash, dquote] else [c]) x)"

text \<open>The same call on any value: only a string has a \<^verbatim>\<open>replace\<close> method.\<close>

fun replaceQuotes :: "'n json \<Rightarrow> error + string" where
  "replaceQuotes (JStr x) = Inr (escapeQuotes x)"
| "replaceQuotes JNull = Inl TypeError"
| "replaceQuotes (JBool b) = Inl TypeError"
| "replaceQuotes (JNum n) = Inl TypeError"
| "replaceQuotes (JArr xs) = Inl TypeError"
| "replaceQuotes (JObj kvs) = Inl TypeError"

definition styleSection :: "string \<Rightarrow> string" where
  "styleSection userStyle =
     (if userStyle \<noteq> [] then
        ''\<newline>USER'S NOTE-TAKING STYLE (follow this style when creating notes):\<newline>'' @
        userStyle @ ''\<newline>\<newline>---\<newline>\<newline>''
      else [])"

definition promptIntro :: string where
  "promptIntro =
     ''You are a note taking expert. Here is a part of audio processed, so it might contain small errors on recognizing what the word is. If it does not make sense to you, maybe search for some word of similar pronunciation that fits in the topic. \<newline>\<newline>''"

definition promptRules :: string where
  "promptRules =
     ''IGNORE unfinished text if it seems like it is cut off from a previous batch that was processed, and if it does not conclude within this text, try to comprehend what it means from next one, and only add the next one's part that can be connected to the unfinished sentence. Also check from last styled piece of styled note processed by LLM, do not double process because you will append the text to where the last one processed ends.\<newline>\<newline>''"

definition promptQuestion :: string where
  "promptQuestion =
     ''\<newline>\<newline>What will you output? ONLY PROCESS THE PIECE OF NOTE YOU WILL TAKE WITH THIS TEXT (in markdown form) following the user's note-taking style above. DO NOT OVER PROCESS.''"

text \<open>
  \<^verbatim>\<open>buildPrompt\<close>. The state's last text and the merged text are strings; the
  look-ahead is the value the Batcher extracted.
\<close>

definition buildPrompt :: "'n system \<Rightarrow> string \<Rightarrow> string \<Rightarrow> 'n json \<Rightarrow> error + string" where
  "buildPrompt s lastText mainText lookAhead =
     (let userStyle = loadUserStyle s in
      case replaceQuotes lookAhead of
        Inl e \<Rightarrow> Inl e
      | Inr next \<Rightarrow>
          Inr (promptIntro @ styleSection userStyle @ promptRules @
               ''Last one processed: '' @ [dquote] @ escapeQuotes lastText @ [dquote] @
               ''\<newline>Main text: '' @ [dquote] @ escapeQuotes mainText @ [dquote] @
               ''\<newline>Next one to process: '' @ [dquote] @ next @ [dquote] @
               promptQuestion))"

text \<open>
  The process environment: the three variables \<^verbatim>\<open>callLLM\<close> looks the key up in, and
  the subprocess \<^verbatim>\<open>python3 llm_wrapper.py\<close> as a function from the prompt on its
  standard input to its exit code (\<open>None\<close>: ended by a signal), standard output and
  standard error.
\<close>

record env =
  ANTHROPIC_API_KEY :: "string option"
  anthropic_api_key :: "string option"
  CLAUDE_API_KEY :: "string option"
  llm :: "string \<Rightarrow> int option \<times> string \<times> string"

fun strTruthy :: "string option \<Rightarrow> bool" where
  "strTruthy None = False"
| "strTruthy (Some x) = (x \<noteq> [])"

text \<open>\<^verbatim>\<open>a || b\<close> on strings that may be \<^verbatim>\<open>undefined\<close>.\<close>

definition orElse :: "string option \<Rightarrow> string option \<Rightarrow> string option" where
  "orElse a b = (if strTruthy a then a else b)"

definition apiKey :: "env \<Rightarrow> string option" where
  "apiKey e = orElse (ANTHROPIC_API_KEY e) (orElse (anthropic_api_key e) (CLAUDE_API_KEY e))"

text \<open>\<^verbatim>\<open>callLLM\<close>: the promise rejects (\<open>Inl\<close>) or resolves with the trimmed output.\<close>

definition callLLM :: "env \<Rightarrow> string \<Rightarrow> error + string" where
  "callLLM e prompt =
     (if \<not> strTruthy (apiKey e) then Inl MissingApiKey
      else
        (case llm e prompt of
           (code, stdout, stderr) \<Rightarrow>
             if code \<noteq> Some 0 then Inl (LLMFailed code stderr) else Inr (trim stdout)))"

text \<open>\<^verbatim>\<open>appendToOutput\<close>: the file grows by the content and a blank line, or is created.\<close>

definition appendToOutput :: "string \<Rightarrow> string \<Rightarrow> 'n system \<Rightarrow> 'n system" where
  "appendToOutput content outputPath s =
     (if content = [] then s
      else
        s\<lparr>noteFiles := (noteFiles s)(outputPath \<mapsto>
             (case noteFiles s outputPath of None \<Rightarrow> [] | Some old \<Rightarrow> old) @
             content @ ''\<newline>\<newline>'')\<rparr>)"

text \<open>
  \<^verbatim>\<open>processBatch\<close>. The result is what the promise settles with (\<open>Inl\<close>: the error it
  rethrows; \<open>Inr None\<close>: \<^verbatim>\<open>null\<close>), paired with the files as the call leaves them.
\<close>

definition processBatch ::
  "env \<Rightarrow> int \<Rightarrow> string \<Rightarrow> 'n json \<Rightarrow> string option \<Rightarrow> 'n system
     \<Rightarrow> (error + string option) \<times> 'n system" where
  "processBatch e now mainText lookAhead outputPath s =
     (if trim mainText = [] then (Inr None, s)
      else
        (let finalOutputPath = (if strTruthy outputPath then the outputPath else outputFile);
             state = loadState s
         in
           (case buildPrompt s (lastProcessed state) mainText lookAhead of
              Inl err \<Rightarrow> (Inl err, s)
            | Inr prompt \<Rightarrow>
                (let s1 = s\<lparr>promptFile := Some prompt\<rparr> in
                 case callLLM e prompt of
                   Inl err \<Rightarrow> (Inl err, s1)
                 | Inr processedContent \<Rightarrow>
                     if processedContent = [] then (Inl EmptyContent, s1)
                     else
                       (let s2 = appendToOutput processedContent finalOutputPath s1;
                            newState = \<lparr>lastProcessed = processedContent,
                                        processedCount = processedCount state + 1,
                                        stateProcessedAt = Some now\<rparr>;
                            s3 = saveState newState s2
                        in (Inr (Some processedContent), s3))))))"

text \<open>\<^verbatim>\<open>resetState\<close>.\<close>

definition resetState :: "'n system \<Rightarrow> 'n system" where
  "resetState s = saveState \<lparr>lastProcessed = [], processedCount = 0, stateProcessedAt = None\<rparr> s"

section \<open>Scheduler and session endpoints (server.js)\<close>

text \<open>
  How a tick ends, as its last log line tells: no work, the batch processed, or the
  error the tick catches.
\<close>

datatype tick = NoWork | Processed | Failed error

text \<open>
  \<^verbatim>\<open>processWebhooks\<close>, the timer's callback. \<open>now\<close> is the clock when the state is
  saved, \<open>later\<close> when the batch is marked.
\<close>

definition processWebhooks ::
  "'n runtime \<Rightarrow> env \<Rightarrow> int \<Rightarrow> int \<Rightarrow> 'n system \<Rightarrow> tick \<times> 'n system" where
  "processWebhooks rt e now later s =
     (case getUnprocessedBatch rt s of
        Inl err \<Rightarrow> (Failed err, s)
      | Inr None \<Rightarrow> (NoWork, s)
      | Inr (Some batch) \<Rightarrow>
          (case processBatch e now (mergedText batch) (nextText batch) (currentNotesFilePath s) s of
             (Inl err, s1) \<Rightarrow> (Failed err, s1)
           | (Inr content, s1) \<Rightarrow> (Processed, markBatchProcessed later (items batch) s1)))"

text \<open>
  \<^verbatim>\<open>POST /start-recording\<close> and \<^verbatim>\<open>POST /stop-recording\<close>; each returns the
  \<^verbatim>\<open>notesFilePath\<close> of its response.
\<close>

definition startRecording ::
  "string option \<Rightarrow> string option \<Rightarrow> 'n system \<Rightarrow> string option \<times> 'n system" where
  "startRecording currentFilePath fallbackPath s =
     (let s1 =
            (if strTruthy currentFilePath then s\<lparr>currentNotesFilePath := currentFilePath\<rparr>
             else if strTruthy fallbackPath then s\<lparr>currentNotesFilePath := fallbackPath\<rparr>
             else s\<lparr>currentNotesFilePath := Some outputFile\<rparr>)
      in (currentNotesFilePath s1, s1))"

definition stopRecording :: "'n system \<Rightarrow> string option \<times> 'n system" where
  "stopRecording s = (currentNotesFilePath s, s)"

section \<open>The writes of the system\<close>

text \<open>
  The functions of the three modules are asynchronous: a call runs up to its next
  \<^verbatim>\<open>await\<close>, and between two of its file operations the calls in flight of other
  requests and ticks take their turns. What runs without interruption is one file
  operation with the synchronous code around it. The definitions above run a function
  from its first load to its last save on one state, as when nothing comes in
  between. A step is one write as it happens by itself.

  Three writes go to the fragment store. Each saves what its call loaded earlier,
  changed by that call alone; the step carries what was loaded: the store for
  \<^verbatim>\<open>addWebhook\<close> and \<^verbatim>\<open>limitWebhooks\<close>, the store and the tracker for \<^verbatim>\<open>cleanup\<close>.

  \<open>addWebhookSave\<close> is \<^verbatim>\<open>addWebhook\<close> from the return of \<^verbatim>\<open>loadWebhooks\<close> on.
\<close>

definition addWebhookSave ::
  "string \<Rightarrow> int \<Rightarrow> 'n json \<Rightarrow> 'n webhook list \<Rightarrow> 'n system \<Rightarrow> 'n system" where
  "addWebhookSave newId now payload webhooks s =
     (let newWebhook = \<lparr>webhook_id = newId, data = payload, receivedAt = now\<rparr>
      in saveWebhooks (webhooks @ [newWebhook]) s)"

text \<open>
  \<open>cleanupSaveWebhooks\<close> is \<^verbatim>\<open>cleanup\<close> from the return of its two loads up to
  \<^verbatim>\<open>saveWebhooks(filtered)\<close>; without \<^verbatim>\<open>processedIds\<close> it throws before it saves.
\<close>

definition cleanupSaveWebhooks ::
  "int \<Rightarrow> 'n webhook list \<Rightarrow> processed \<Rightarrow> 'n system \<Rightarrow> 'n system" where
  "cleanupSaveWebhooks cutoff webhooks processed s =
     (case processedIds processed of
        None \<Rightarrow> s
      | Some ids \<Rightarrow>
          (let filtered = filter (\<lambda>w.
                 let isOld = (receivedAt w < cutoff);
                     isProcessed = (webhook_id w \<in> set ids)
                 in \<not> (isOld \<and> isProcessed)) webhooks
           in saveWebhooks filtered s))"

text \<open>
  \<open>limitSaveWebhooks\<close> is \<^verbatim>\<open>limitWebhooks\<close> from the return of \<^verbatim>\<open>loadWebhooks\<close> up to
  \<^verbatim>\<open>saveWebhooks(limited)\<close>.
\<close>

definition limitSaveWebhooks :: "int \<Rightarrow> 'n webhook list \<Rightarrow> 'n system \<Rightarrow> 'n system" where
  "limitSaveWebhooks maxCount webhooks s =
     (if int (length webhooks) > maxCount then saveWebhooks (sliceFromEnd maxCount webhooks) s
      else s)"

text \<open>
  Every other write goes to another file, whatever the call that makes it computed:
  \<^verbatim>\<open>saveProcessed\<close> (from \<^verbatim>\<open>markBatchProcessed\<close>, \<^verbatim>\<open>cleanup\<close>, \<^verbatim>\<open>limitWebhooks\<close>,
  \<^verbatim>\<open>resetProcessed\<close>), \<^verbatim>\<open>saveState\<close> (from \<^verbatim>\<open>processBatch\<close>, \<^verbatim>\<open>resetState\<close>), the
  prompt file and the note document (from \<^verbatim>\<open>processBatch\<close>), and the assignment to the
  server's variable (from \<^verbatim>\<open>POST /start-recording\<close>).
\<close>

datatype 'n step =
    AddWebhookSave string int "'n json" "'n webhook list"
  | CleanupSaveWebhooks int "'n webhook list" processed
  | LimitSaveWebhooks int "'n webhook list"
  | SaveProcessed processed
  | SaveState procState
  | SavePrompt string
  | AppendToOutput string string
  | SetNotesPath "string option"

fun perform :: "'n step \<Rightarrow> 'n system \<Rightarrow> 'n system" where
  "perform (AddWebhookSave newId now payload webhooks) s =
     addWebhookSave newId now payload webhooks s"
| "perform (CleanupSaveWebhooks cutoff webhooks processed) s =
     cleanupSaveWebhooks cutoff webhooks processed s"
| "perform (LimitSaveWebhooks maxCount webhooks) s = limitSaveWebhooks maxCount webhooks s"
| "perform (SaveProcessed p) s = saveProcessed p s"
| "perform (SaveState st) s = saveState st s"
| "perform (SavePrompt prompt) s = s\<lparr>promptFile := Some prompt\<rparr>"
| "perform (AppendToOutput content outputPath) s = appendToOutput content outputPath s"
| "perform (SetNotesPath path) s = s\<lparr>currentNotesFilePath := path\<rparr>"

fun writesStore :: "'n step \<Rightarrow> bool" where
  "writesStore (AddWebhookSave newId now payload webhooks) = True"
| "writesStore (CleanupSaveWebhooks cutoff webhooks processed) = True"
| "writesStore (LimitSaveWebhooks maxCount webhooks) = True"
| "writesStore (SaveProcessed p) = False"
| "writesStore (SaveState st) = False"
| "writesStore (SavePrompt prompt) = False"
| "writesStore (AppendToOutput content outputPath) = False"
| "writesStore (SetNotesPath path) = False"

text \<open>Running a list of steps one after the other.\<close>

definition performAll :: "'n step list \<Rightarrow> 'n system \<Rightarrow> 'n system" where
  "performAll steps s = foldl (\<lambda>s1 step. perform step s1) s steps"

section \<open>Notions the properties are stated with\<close>

text \<open>
  The Fragment Store is the content of \<^verbatim>\<open>webhooks.json\<close>, in the order of ingestion;
  the consumed ids are those recorded in \<^verbatim>\<open>processed.json\<close>; a fragment is unconsumed
  when its id is not among them. The unconsumed sequence keeps the order of the store.
\<close>

definition storedFragments :: "'n system \<Rightarrow> 'n webhook list" where
  "storedFragments s = (case webhooksFile s of None \<Rightarrow> [] | Some ws \<Rightarrow> ws)"

definition consumedIn :: "processed \<Rightarrow> string set" where
  "consumedIn p = (case processedIds p of None \<Rightarrow> {} | Some ids \<Rightarrow> set ids)"

definition consumedIds :: "'n system \<Rightarrow> string set" where
  "consumedIds s = (case processedFile s of None \<Rightarrow> {} | Some p \<Rightarrow> consumedIn p)"

definition unconsumed :: "'n system \<Rightarrow> 'n webhook list" where
  "unconsumed s = filter (\<lambda>w. webhook_id w \<notin> consumedIds s) (storedFragments s)"

text \<open>
  A write to the store is fresh in a state when what its call loaded is what the
  state holds: no other write to the store, nor to the tracker for the cleanup, fell
  between the load and this save.
\<close>

fun fresh :: "'n step \<Rightarrow> 'n system \<Rightarrow> bool" where
  "fresh (AddWebhookSave newId now payload webhooks) s = (webhooks = storedFragments s)"
| "fresh (CleanupSaveWebhooks cutoff webhooks processed) s =
     (webhooks = storedFragments s \<and> consumedIn processed = consumedIds s)"
| "fresh (LimitSaveWebhooks maxCount webhooks) s = (webhooks = storedFragments s)"
| "fresh (SaveProcessed p) s = True"
| "fresh (SaveState st) s = True"
| "fresh (SavePrompt prompt) s = True"
| "fresh (AppendToOutput content outputPath) s = True"
| "fresh (SetNotesPath path) s = True"

text \<open>The own property \<open>k\<close> of an object; any other value has none.\<close>

fun field :: "string \<Rightarrow> 'n json \<Rightarrow> 'n json option" where
  "field k (JObj kvs) = map_of kvs k"
| "field k JNull = None"
| "field k (JBool b) = None"
| "field k (JNum n) = None"
| "field k (JStr s) = None"
| "field k (JArr xs) = None"

text \<open>
  A value that has a text form: no object in it, at any depth of nested arrays, has an
  own property named \<^verbatim>\<open>toString\<close>.
\<close>

fun printable :: "'n json \<Rightarrow> bool" where
  "printable (JObj kvs) = (''toString'' \<notin> set (map fst kvs))"
| "printable (JArr xs) = list_all printable xs"
| "printable JNull = True"
| "printable (JBool b) = True"
| "printable (JNum n) = True"
| "printable (JStr s) = True"

text \<open>
  A segments value rule 2 can join: a list with no \<^verbatim>\<open>null\<close> in it, in which the
  \<^verbatim>\<open>text\<close> of every segment that has one has a text form.
\<close>

fun goodSegment :: "'n json \<Rightarrow> bool" where
  "goodSegment seg =
     (seg \<noteq> JNull \<and> (case field ''text'' seg of None \<Rightarrow> True | Some t \<Rightarrow> printable t))"

fun goodSegments :: "'n json option \<Rightarrow> bool" where
  "goodSegments (Some (JArr segs)) = list_all goodSegment segs"
| "goodSegments (Some JNull) = False"
| "goodSegments (Some (JBool b)) = False"
| "goodSegments (Some (JNum n)) = False"
| "goodSegments (Some (JStr s)) = False"
| "goodSegments (Some (JObj kvs)) = False"
| "goodSegments None = False"

text \<open>The payloads rule 2 and rule 3 of the extraction apply to.\<close>

definition rule2 :: "'n runtime \<Rightarrow> 'n json \<Rightarrow> bool" where
  "rule2 rt d = (\<not> isString d \<and> truthyOpt rt (field ''segments'' d))"

definition rule3 :: "'n runtime \<Rightarrow> 'n json \<Rightarrow> bool" where
  "rule3 rt d = (\<not> isString d \<and> \<not> rule2 rt d \<and> truthyOpt rt (field ''text'' d))"



text \<open>
  Reading a double-quoted literal from the character after its opening quote, a
  backslash escaping the character that follows it: the position of the quote that
  closes the literal, if there is one.
\<close>

fun literalEnd :: "string \<Rightarrow> nat option" where
  "literalEnd [] = None"
| "literalEnd [c] = (if c = dquote then Some 0 else None)"
| "literalEnd (c # d # cs) =
     (if c = dquote then Some 0
      else if c = backslash then map_option (\<lambda>n. n + 2) (literalEnd cs)
      else map_option Suc (literalEnd (d # cs)))"

text \<open>The note document a tick appends to, and its content before the tick.\<close>

definition notesPath :: "'n system \<Rightarrow> string" where
  "notesPath s =
     (if strTruthy (currentNotesFilePath s) then the (currentNotesFilePath s) else outputFile)"

definition notesBefore :: "'n system \<Rightarrow> string" where
  "notesBefore s = (case noteFiles s (notesPath s) of None \<Rightarrow> [] | Some old \<Rightarrow> old)"

section \<open>Example systems\<close>

text \<open>
  The examples take the integers for numbers: zero is falsy, and an integer prints
  in decimal notation, which is how JavaScript prints the integers of a magnitude
  below ten to the power 21.
\<close>

fun decimal :: "nat \<Rightarrow> string" where
  "decimal n =
     (if n < 10 then [''0123456789'' ! n]
      else decimal (n div 10) @ [''0123456789'' ! (n mod 10)])"

declare decimal.simps [simp del]

definition integerText :: "int \<Rightarrow> string" where
  "integerText n = (if n < 0 then ''-'' @ decimal (nat (- n)) else decimal (nat n))"

definition exampleRuntime :: "int runtime" where
  "exampleRuntime = \<lparr>num_falsy = (\<lambda>n. n = 0), num_text = integerText\<rparr>"

definition freshSystem :: "int system" where
  "freshSystem =
     \<lparr>webhooksFile = None, processedFile = None, stateFile = None, promptFile = None,
      styleFile = None, noteFiles = (\<lambda>path. None), currentNotesFilePath = None\<rparr>"

definition fragment :: "string \<Rightarrow> int json \<Rightarrow> int webhook" where
  "fragment i payload = \<lparr>webhook_id = i, data = payload, receivedAt = 0\<rparr>"

definition storing :: "int webhook list \<Rightarrow> int system" where
  "storing ws = freshSystem\<lparr>webhooksFile := Some ws\<rparr>"

definition elevenWords :: "int webhook list" where
  "elevenWords =
     [fragment ''1'' (JStr ''w1''), fragment ''2'' (JStr ''w2''), fragment ''3'' (JStr ''w3''),
      fragment ''4'' (JStr ''w4''), fragment ''5'' (JStr ''w5''), fragment ''6'' (JStr ''w6''),
      fragment ''7'' (JStr ''w7''), fragment ''8'' (JStr ''w8''), fragment ''9'' (JStr ''w9''),
      fragment ''10'' (JStr ''w10''), fragment ''11'' (JStr ''w11'')]"

definition threeWords :: "int webhook list" where
  "threeWords =
     [fragment ''1'' (JStr ''Hello''), fragment ''2'' (JStr ''big''), fragment ''3'' (JStr ''world'')]"

text \<open>The batches the Batcher makes of the two stores.\<close>

definition elevenBatch :: "int batch" where
  "elevenBatch =
     \<lparr>items = take 10 elevenWords, mergedText = ''w1 w2 w3 w4 w5 w6 w7 w8 w9 w10'',
      nextText = JStr ''w11'', hasMore = True\<rparr>"

definition threeBatch :: "int batch" where
  "threeBatch =
     \<lparr>items = threeWords, mergedText = ''Hello big world'', nextText = JStr [],
      hasMore = False\<rparr>"

text \<open>An environment with no key set, and one with a key whose subprocess prints a note.\<close>

definition noKey :: env where
  "noKey =
     \<lparr>ANTHROPIC_API_KEY = None, anthropic_api_key = None, CLAUDE_API_KEY = None,
      llm = (\<lambda>prompt. (Some 0, ''Note A'', []))\<rparr>"

definition withKey :: env where
  "withKey =
     \<lparr>ANTHROPIC_API_KEY = Some ''key'', anthropic_api_key = None, CLAUDE_API_KEY = None,
      llm = (\<lambda>prompt. (Some 0, ''Note A\<newline>'', []))\<rparr>"

text \<open>An environment whose subprocess succeeds and prints white space only.\<close>

definition blankOutput :: env where
  "blankOutput =
     \<lparr>ANTHROPIC_API_KEY = Some ''key'', anthropic_api_key = None, CLAUDE_API_KEY = None,
      llm = (\<lambda>prompt. (Some 0, '' \<newline>'', []))\<rparr>"

text \<open>The prompt built for the batch of the three words when nothing was processed before.\<close>

definition threePrompt :: string where
  "threePrompt =
     promptIntro @ promptRules @
     ''Last one processed: '' @ [dquote] @ [dquote] @
     ''\<newline>Main text: '' @ [dquote] @ ''Hello big world'' @ [dquote] @
     ''\<newline>Next one to process: '' @ [dquote] @ [dquote] @
     promptQuestion"

text \<open>A store holding one fragment whose text is a single space.\<close>

definition blankStore :: "int system" where
  "blankStore = storing [fragment ''1'' (JStr '' '')]"

text \<open>
  A store of two unconsumed fragments: a string, and an object whose \<^verbatim>\<open>segments\<close> is a
  string, as \<^verbatim>\<open>POST /webhook\<close> stores them for the bodies \<^verbatim>\<open>ok\<close> and
  \<^verbatim>\<open>{"segments": "hello"}\<close>.
\<close>

definition malformedStore :: "int system" where
  "malformedStore =
     storing [fragment ''1'' (JStr ''ok''), fragment ''2'' (JObj [(''segments'', JStr ''hello'')])]"

text \<open>The three words with the first of them marked consumed.\<close>

definition firstConsumed :: "int system" where
  "firstConsumed =
     (storing threeWords)
       \<lparr>processedFile := Some \<lparr>processedIds = Some [''1''], lastProcessedAt = Some 1,
                                totalProcessed = Some 1\<rparr>\<rparr>"

section \<open>Facts about the Batcher\<close>

text \<open>
  The filter the code applies is the unconsumed sequence: what \<open>loadWebhooks\<close> returns
  is the store, and the ids the code tests against are the consumed ids.
\<close>

lemma loadWebhooks_stored: "loadWebhooks s = storedFragments s"
  by (simp add: loadWebhooks_def storedFragments_def)

lemma idsOrEmpty_consumed: "set (idsOrEmpty (loadProcessed s)) = consumedIds s"
  by (simp add: idsOrEmpty_def loadProcessed_def consumedIds_def consumedIn_def
      split: option.splits)

lemma unprocessed_unconsumed: "unprocessed s = unconsumed s"
  by (simp add: unprocessed_def unconsumed_def loadWebhooks_stored idsOrEmpty_consumed)

lemma batchSize_nonzero [simp]: "batchSize \<noteq> 0"
  by (simp add: batchSize_def)

lemma hd_next_slice:
  "batchSize < length xs \<Longrightarrow> hd (take batchSize (drop batchSize xs)) = xs ! batchSize"
proof -
  assume less: "batchSize < length xs"
  have "hd (take batchSize (drop batchSize xs)) = hd (drop batchSize xs)"
    by (cases "drop batchSize xs") (simp_all add: batchSize_def)
  also have "\<dots> = xs ! batchSize"
    using less by (rule hd_drop_conv_nth)
  finally show ?thesis .
qed

text \<open>What a returned batch tells about the store it was made from.\<close>

lemma getUnprocessedBatch_SomeD:
  assumes "getUnprocessedBatch rt s = Inr (Some b)"
  shows "unprocessed s \<noteq> []"
    and "items b = take batchSize (unprocessed s)"
    and "hasMore b = (length (unprocessed s) > batchSize)"
    and "\<exists>texts. collect (map (\<lambda>item. extractTextFromData rt (data item)) (items b)) = Inr texts \<and>
           join rt mergeSeparator (map Some texts) = Inr (mergedText b)"
    and "length (unprocessed s) > batchSize \<Longrightarrow>
           extractTextFromData rt (data (unprocessed s ! batchSize)) = Inr (nextText b)"
    and "\<not> length (unprocessed s) > batchSize \<Longrightarrow> nextText b = JStr []"
  using assms
  by (auto simp add: getUnprocessedBatch_def Let_def hd_next_slice split: if_splits sum.splits)

lemma eleven_unprocessed: "unprocessed (storing elevenWords) = elevenWords"
  by (simp add: unprocessed_def loadWebhooks_def loadProcessed_def
      idsOrEmpty_def storing_def freshSystem_def)

lemma three_unprocessed: "unprocessed (storing threeWords) = threeWords"
  by (simp add: unprocessed_def loadWebhooks_def loadProcessed_def
      idsOrEmpty_def storing_def freshSystem_def)

lemma eleven_length: "length (unprocessed (storing elevenWords)) = 11"
  unfolding eleven_unprocessed by (simp add: elevenWords_def)

lemma three_length: "length (unprocessed (storing threeWords)) = 3"
  unfolding three_unprocessed by (simp add: threeWords_def)

lemma eleven_batch:
  "getUnprocessedBatch exampleRuntime (storing elevenWords) = Inr (Some elevenBatch)"
  by (simp add: getUnprocessedBatch_def unprocessed_def loadWebhooks_def loadProcessed_def
      idsOrEmpty_def storing_def freshSystem_def elevenWords_def fragment_def batchSize_def
      extractTextFromData_def join_def mergeSeparator_def elevenBatch_def)

lemma three_batch:
  "getUnprocessedBatch exampleRuntime (storing threeWords) = Inr (Some threeBatch)"
  by (simp add: getUnprocessedBatch_def unprocessed_def loadWebhooks_def loadProcessed_def
      idsOrEmpty_def storing_def freshSystem_def threeWords_def fragment_def batchSize_def
      extractTextFromData_def join_def mergeSeparator_def threeBatch_def)






lemma eleven_unconsumed: "unconsumed (storing elevenWords) = elevenWords"
  using eleven_unprocessed by (simp add: unprocessed_unconsumed)

lemma three_unconsumed: "unconsumed (storing threeWords) = threeWords"
  using three_unprocessed by (simp add: unprocessed_unconsumed)

text \<open>
  Every batch the Batcher returns holds the first ten unconsumed fragments, in the
  order of the store, and its merged text is the texts extracted from them, in that
  order, joined by a single space.
\<close>

lemma returned_batch_items_and_text:
  assumes "getUnprocessedBatch rt s = Inr (Some b)"
  shows "items b = take 10 (unconsumed s) \<and>
         (\<exists>texts. collect (map (\<lambda>item. extractTextFromData rt (data item)) (items b)) = Inr texts \<and>
                  join rt '' '' (map Some texts) = Inr (mergedText b))"
  using getUnprocessedBatch_SomeD(2,4) [OF assms]
  by (simp add: unprocessed_unconsumed batchSize_def mergeSeparator_def)



section \<open>Batch selection and order\<close>

text \<open>
  Claim C2, on the code. Two fragments are stored and none is consumed. The second
  holds an object whose \<^verbatim>\<open>segments\<close> is a string, on which the extraction throws.
  The Batcher maps the extraction over the window, so it throws
  as well: no batch is made of a store that has unconsumed fragments, the tick fails
  and leaves every file as it was, and so does every tick after it.
\<close>

theorem no_batch_for_malformed_fragment:
  "unconsumed malformedStore =
     [fragment ''1'' (JStr ''ok''), fragment ''2'' (JObj [(''segments'', JStr ''hello'')])] \<and>
   getUnprocessedBatch exampleRuntime malformedStore = Inl TypeError \<and>
   processWebhooks exampleRuntime withKey 1 2 malformedStore = (Failed TypeError, malformedStore)"
proof -
  have stored: "unconsumed malformedStore =
     [fragment ''1'' (JStr ''ok''), fragment ''2'' (JObj [(''segments'', JStr ''hello'')])]"
    by (simp add: unconsumed_def storedFragments_def consumedIds_def malformedStore_def
        storing_def freshSystem_def)
  have raised: "getUnprocessedBatch exampleRuntime malformedStore = Inl TypeError"
    unfolding getUnprocessedBatch_def unprocessed_unconsumed stored
    by (simp add: batchSize_def fragment_def extractTextFromData_def guardedProp_def)
  then have "processWebhooks exampleRuntime withKey 1 2 malformedStore =
      (Failed TypeError, malformedStore)"
    by (simp add: processWebhooks_def)
  with stored raised show ?thesis by simp
qed

section \<open>The look-ahead and the flag\<close>



text \<open>
  Claim C6, as the code has it. The claim reads \<open>hasMore\<close> as "more than
  \<open>batchSize + 1\<close> fragments are unconsumed". With exactly eleven unconsumed fragments
  the flag is set although nothing lies beyond the look-ahead fragment.
\<close>

theorem hasMore_with_eleven_fragments:
  "getUnprocessedBatch exampleRuntime (storing elevenWords) = Inr (Some elevenBatch) \<and>
   hasMore elevenBatch \<and>
   length (unprocessed (storing elevenWords)) = 11 \<and>
   \<not> length (unprocessed (storing elevenWords)) > batchSize + 1"
proof -
  have "hasMore elevenBatch" by (simp add: elevenBatch_def)
  then show ?thesis using eleven_batch by (simp add: eleven_length batchSize_def)
qed

text \<open>
  Claim C6, amended. The flag \<open>hasMore\<close> of a batch is true exactly when more than
  ten fragments are unconsumed, that is, when unconsumed fragments exist beyond the
  batch window, the look-ahead fragment among them.
\<close>

theorem hasMore_iff_beyond_batch:
  assumes "getUnprocessedBatch rt s = Inr (Some b)"
  shows "hasMore b \<longleftrightarrow> 10 < length (unconsumed s)"
  using getUnprocessedBatch_SomeD(3) [OF assms]
  by (simp add: unprocessed_unconsumed batchSize_def)

text \<open>The flag is set for the eleven words and not for the three.\<close>

theorem hasMore_iff_beyond_batch_witness:
  "getUnprocessedBatch exampleRuntime (storing elevenWords) = Inr (Some elevenBatch) \<and>
   length (unconsumed (storing elevenWords)) = 11 \<and> hasMore elevenBatch \<and>
   getUnprocessedBatch exampleRuntime (storing threeWords) = Inr (Some threeBatch) \<and>
   length (unconsumed (storing threeWords)) = 3 \<and> \<not> hasMore threeBatch"
proof -
  have eleven: "length (unconsumed (storing elevenWords)) = 11"
    unfolding eleven_unconsumed by (simp add: elevenWords_def)
  have three: "length (unconsumed (storing threeWords)) = 3"
    unfolding three_unconsumed by (simp add: threeWords_def)
  from hasMore_iff_beyond_batch [OF eleven_batch] eleven
  have set: "hasMore elevenBatch" by simp
  from hasMore_iff_beyond_batch [OF three_batch] three
  have unset: "\<not> hasMore threeBatch" by simp
  from eleven three set unset eleven_batch three_batch show ?thesis by blast
qed

section \<open>Ingestion\<close>

text \<open>
  Claim C10. \<open>addWebhook\<close> called with a falsy payload (\<^verbatim>\<open>undefined\<close>, \<^verbatim>\<open>null\<close>,
  \<^verbatim>\<open>false\<close>, a zero number, the empty string) returns without touching any file, so
  the set of unconsumed fragments is what it was; an empty string is dropped here
  although rule 1 of the extraction would return it as it is.
\<close>

theorem falsy_payload_dropped:
  assumes "\<not> truthyOpt rt payload"
  shows "addWebhook rt newId now payload s = (None, s) \<and>
         unprocessed (snd (addWebhook rt newId now payload s)) = unprocessed s \<and>
         extractTextFromData rt (JStr []) = Inr (JStr [])"
  using assms by (simp add: addWebhook_def extractTextFromData_def)

theorem falsy_payload_dropped_witness:
  "\<not> truthyOpt exampleRuntime (Some (JStr [])) \<and>
   addWebhook exampleRuntime ''4'' 7 (Some (JStr [])) (storing threeWords) =
     (None, storing threeWords) \<and>
   unprocessed (snd (addWebhook exampleRuntime ''4'' 7 (Some (JStr [])) (storing threeWords))) =
     unprocessed (storing threeWords) \<and>
   extractTextFromData exampleRuntime (JStr []) = Inr (JStr [])"
proof -
  have falsy: "\<not> truthyOpt exampleRuntime (Some (JStr []))" by simp
  from falsy_payload_dropped [OF falsy, of "''4''" 7 "storing threeWords"] falsy
  show ?thesis by simp
qed

section \<open>Extraction, rule by rule\<close>

lemma collect_Inr_iff: "(\<exists>xs. collect rs = Inr xs) \<longleftrightarrow> (\<forall>r \<in> set rs. \<not> isl r)"
  by (induction rs) (auto split: sum.splits)

lemma collect_InlD: "collect rs = Inl e \<Longrightarrow> Inl e \<in> set rs"
  by (induction rs) (auto split: sum.splits)

lemma toText_error: "toText rt v = Inl e \<Longrightarrow> e = TypeError"
proof (induction rt v arbitrary: e rule: toText.induct)
  case (5 rt xs)
  then obtain x where "x \<in> set xs" "x \<noteq> JNull" "toText rt x = Inl e"
    by (auto split: sum.splits if_splits dest!: collect_InlD)
  with "5.IH" show ?case by blast
qed (auto split: if_splits)

lemma toText_printable: "(\<exists>t. toText rt v = Inr t) \<longleftrightarrow> printable v"
proof (induction rt v rule: toText.induct)
  case (5 rt xs)
  have "(\<exists>t. toText rt (JArr xs) = Inr t) \<longleftrightarrow>
        (\<exists>ts. collect (map (\<lambda>x. if x = JNull then Inr [] else toText rt x) xs) = Inr ts)"
    by (auto split: sum.splits)
  also have "\<dots> \<longleftrightarrow> (\<forall>x \<in> set xs. x \<noteq> JNull \<longrightarrow> \<not> isl (toText rt x))"
    by (auto simp add: collect_Inr_iff)
  also have "\<dots> \<longleftrightarrow> (\<forall>x \<in> set xs. printable x)"
  proof (intro ball_cong refl)
    fix x assume "x \<in> set xs"
    show "(x \<noteq> JNull \<longrightarrow> \<not> isl (toText rt x)) \<longleftrightarrow> printable x"
    proof (cases "x = JNull")
      case True
      then show ?thesis by simp
    next
      case False
      with "5.IH" [OF \<open>x \<in> set xs\<close>] have "(\<exists>t. toText rt x = Inr t) \<longleftrightarrow> printable x" by simp
      moreover have "(\<exists>t. toText rt x = Inr t) \<longleftrightarrow> \<not> isl (toText rt x)"
        by (cases "toText rt x") simp_all
      ultimately show ?thesis using False by simp
    qed
  qed
  finally show ?case by (simp add: list_all_iff)
qed auto

lemma elemText_Inr_iff:
  "(\<exists>t. elemText rt x = Inr t) \<longleftrightarrow> (case x of None \<Rightarrow> True | Some v \<Rightarrow> printable v)"
  using toText_printable [of rt] by (cases x) auto

lemma elemText_error: "elemText rt x = Inl e \<Longrightarrow> e = TypeError"
  by (cases x) (auto split: if_splits dest: toText_error)

lemma join_error:
  assumes "join rt sep xs = Inl e"
  shows "e = TypeError"
proof -
  from assms have "collect (map (elemText rt) xs) = Inl e"
    by (simp add: join_def split: sum.splits)
  then have "Inl e \<in> set (map (elemText rt) xs)" by (rule collect_InlD)
  then obtain x where "elemText rt x = Inl e" by auto
  then show ?thesis by (rule elemText_error)
qed

lemma join_Inr_iff:
  "(\<exists>t. join rt sep xs = Inr t) \<longleftrightarrow>
   (\<forall>x \<in> set xs. case x of None \<Rightarrow> True | Some v \<Rightarrow> printable v)"
proof -
  have "(\<exists>t. join rt sep xs = Inr t) \<longleftrightarrow> (\<exists>ts. collect (map (elemText rt) xs) = Inr ts)"
    by (auto simp add: join_def split: sum.splits)
  also have "\<dots> \<longleftrightarrow> (\<forall>x \<in> set xs. \<exists>t. elemText rt x = Inr t)"
    unfolding collect_Inr_iff
  proof (intro iffI ballI)
    fix x assume "\<forall>r\<in>set (map (elemText rt) xs). \<not> isl r" "x \<in> set xs"
    then have "\<not> isl (elemText rt x)" by simp
    then show "\<exists>t. elemText rt x = Inr t" by (cases "elemText rt x") simp_all
  next
    fix r assume "\<forall>x\<in>set xs. \<exists>t. elemText rt x = Inr t" "r \<in> set (map (elemText rt) xs)"
    then show "\<not> isl r" by auto
  qed
  finally show ?thesis by (simp only: elemText_Inr_iff)
qed

lemma getProp_field: "seg \<noteq> JNull \<Longrightarrow> getProp k seg = Inr (field k seg)"
  by (cases seg) simp_all

lemma texts_of_segments:
  "JNull \<notin> set segs \<Longrightarrow> collect (map (getProp k) segs) = Inr (map (field k) segs)"
  by (induction segs) (auto simp add: getProp_field)

lemma null_segment: "JNull \<in> set segs \<Longrightarrow> collect (map (getProp k) segs) = Inl TypeError"
proof (induction segs)
  case Nil
  then show ?case by simp
next
  case (Cons seg segs)
  show ?case
  proof (cases "seg = JNull")
    case True
    then show ?thesis by simp
  next
    case False
    with Cons show ?thesis by (simp add: getProp_field)
  qed
qed

lemma segmentsText_error: "segmentsText rt v = Inl e \<Longrightarrow> e = TypeError"
proof (cases v)
  case (JArr segs)
  assume "segmentsText rt v = Inl e"
  with JArr show ?thesis
    by (cases "JNull \<in> set segs") (auto simp add: null_segment texts_of_segments dest: join_error)
qed auto

lemma segmentsText_good:
  assumes "list_all goodSegment segs"
  shows "\<exists>t. join rt '' '' (map (field ''text'') segs) = Inr t \<and>
             segmentsText rt (JArr segs) = Inr t"
proof -
  from assms have nonull: "JNull \<notin> set segs"
    by (auto simp add: list_all_iff)
  from assms have "\<forall>x \<in> set (map (field ''text'') segs).
      case x of None \<Rightarrow> True | Some v \<Rightarrow> printable v"
    by (auto simp add: list_all_iff)
  then obtain t where "join rt '' '' (map (field ''text'') segs) = Inr t"
    using join_Inr_iff [of rt "'' ''" "map (field ''text'') segs"] by blast
  with nonull show ?thesis by (simp add: texts_of_segments)
qed

lemma segmentsText_bad:
  assumes "\<not> goodSegments (Some v)"
  shows "segmentsText rt v = Inl TypeError"
proof (cases v)
  case (JArr segs)
  with assms have bad: "\<not> list_all goodSegment segs" by simp
  show ?thesis
  proof (cases "JNull \<in> set segs")
    case True
    with JArr show ?thesis by (simp add: null_segment)
  next
    case False
    with bad have "\<not> (\<forall>x \<in> set (map (field ''text'') segs).
      case x of None \<Rightarrow> True | Some v \<Rightarrow> printable v)"
      by (auto simp add: list_all_iff)
    then have "\<not> (\<exists>t. join rt '' '' (map (field ''text'') segs) = Inr t)"
      using join_Inr_iff [of rt "'' ''" "map (field ''text'') segs"] by blast
    then obtain e where "join rt '' '' (map (field ''text'') segs) = Inl e"
      by (cases "join rt '' '' (map (field ''text'') segs)") auto
    moreover from this have "e = TypeError" by (rule join_error)
    ultimately show ?thesis using JArr False by (simp add: texts_of_segments)
  qed
qed simp_all

lemma guardedProp_field:
  "\<not> isString d \<Longrightarrow> truthyOpt rt (field k d) \<Longrightarrow> guardedProp rt d k = Inr (field k d)"
  by (cases d) (simp_all add: guardedProp_def)

lemma guardedProp_falsy:
  "\<not> truthyOpt rt (field k d) \<Longrightarrow> \<exists>v. guardedProp rt d k = Inr v \<and> \<not> truthyOpt rt v"
  by (cases d) (auto simp add: guardedProp_def)

text \<open>
  What the extraction does on every payload, rule by rule. Rule 1 returns a string
  payload as it is. Rule 2, for a payload with a truthy \<^verbatim>\<open>segments\<close>, returns the
  segment texts joined by a space when \<^verbatim>\<open>segments\<close> is a list free of \<^verbatim>\<open>null\<close> whose
  texts have a text form, and throws a TypeError on every other truthy \<^verbatim>\<open>segments\<close>.
  Rule 3 returns a truthy \<^verbatim>\<open>text\<close> field as it is. Rule 4 returns the serialised
  payload. The extraction throws in no other case.
\<close>

lemma extraction_rule_by_rule:
  "(isString d \<longrightarrow> extractTextFromData rt d = Inr d) \<and>
   (field ''segments'' d = Some (JArr segs) \<and> list_all goodSegment segs \<longrightarrow>
      (\<exists>t. join rt '' '' (map (field ''text'') segs) = Inr t \<and>
           extractTextFromData rt d = Inr (JStr t))) \<and>
   (rule2 rt d \<and> \<not> goodSegments (field ''segments'' d) \<longrightarrow>
      extractTextFromData rt d = Inl TypeError) \<and>
   (rule3 rt d \<longrightarrow> extractTextFromData rt d = Inr (the (field ''text'' d))) \<and>
   (\<not> isString d \<and> \<not> rule2 rt d \<and> \<not> rule3 rt d \<longrightarrow>
      extractTextFromData rt d = Inr (JStr (stringify rt d))) \<and>
   ((\<exists>e. extractTextFromData rt d = Inl e) \<longleftrightarrow>
      rule2 rt d \<and> \<not> goodSegments (field ''segments'' d))"
proof -
  have r1: "isString d \<Longrightarrow> extractTextFromData rt d = Inr d"
    by (simp add: extractTextFromData_def)
  have r2: "\<exists>t. join rt '' '' (map (field ''text'') ss) = Inr t \<and>
           extractTextFromData rt d = Inr (JStr t)"
    if "field ''segments'' d = Some (JArr ss)" "list_all goodSegment ss" for ss
  proof -
    from that(1) have "\<not> isString d" by (cases d) simp_all
    moreover from that(1) have "truthyOpt rt (field ''segments'' d)" by simp
    ultimately have "guardedProp rt d ''segments'' = Inr (Some (JArr ss))"
      using that(1) by (simp add: guardedProp_field)
    with \<open>\<not> isString d\<close> segmentsText_good [OF that(2), of rt] show ?thesis
      by (auto simp add: extractTextFromData_def)
  qed
  have r2bad: "extractTextFromData rt d = Inl TypeError"
    if "rule2 rt d" "\<not> goodSegments (field ''segments'' d)"
  proof -
    from that(1) have d: "\<not> isString d" "truthyOpt rt (field ''segments'' d)"
      by (simp_all add: rule2_def)
    then obtain v where v: "field ''segments'' d = Some v"
      by (cases "field ''segments'' d") simp_all
    with d have "guardedProp rt d ''segments'' = Inr (Some v)"
      by (simp add: guardedProp_field)
    moreover from that(2) v have "segmentsText rt v = Inl TypeError"
      by (simp add: segmentsText_bad)
    ultimately show ?thesis using d v by (simp add: extractTextFromData_def)
  qed
  have r3: "extractTextFromData rt d = Inr (the (field ''text'' d))" if "rule3 rt d"
  proof -
    from that have d: "\<not> isString d" "\<not> truthyOpt rt (field ''segments'' d)"
      "truthyOpt rt (field ''text'' d)"
      by (auto simp add: rule3_def rule2_def)
    from guardedProp_falsy [OF d(2)] obtain v
      where "guardedProp rt d ''segments'' = Inr v" "\<not> truthyOpt rt v" by blast
    moreover from d have "guardedProp rt d ''text'' = Inr (field ''text'' d)"
      by (simp add: guardedProp_field)
    ultimately show ?thesis using d by (simp add: extractTextFromData_def)
  qed
  have r4: "extractTextFromData rt d = Inr (JStr (stringify rt d))"
    if "\<not> isString d" "\<not> rule2 rt d" "\<not> rule3 rt d"
  proof -
    from that have d: "\<not> truthyOpt rt (field ''segments'' d)" "\<not> truthyOpt rt (field ''text'' d)"
      by (auto simp add: rule3_def rule2_def)
    from guardedProp_falsy [OF d(1)] obtain v
      where "guardedProp rt d ''segments'' = Inr v" "\<not> truthyOpt rt v" by blast
    moreover from guardedProp_falsy [OF d(2)] obtain u
      where "guardedProp rt d ''text'' = Inr u" "\<not> truthyOpt rt u" by blast
    ultimately show ?thesis using that(1) by (simp add: extractTextFromData_def)
  qed
  have raises: "(\<exists>e. extractTextFromData rt d = Inl e) \<longleftrightarrow>
      rule2 rt d \<and> \<not> goodSegments (field ''segments'' d)"
  proof
    assume "\<exists>e. extractTextFromData rt d = Inl e"
    then obtain e where e: "extractTextFromData rt d = Inl e" ..
    with r1 have nostr: "\<not> isString d" by auto
    show "rule2 rt d \<and> \<not> goodSegments (field ''segments'' d)"
    proof (cases "rule2 rt d")
      case True
      then obtain v where v: "field ''segments'' d = Some v"
        by (cases "field ''segments'' d") (simp_all add: rule2_def)
      have "\<not> goodSegments (Some v)"
      proof
        assume good: "goodSegments (Some v)"
        then obtain ss where "v = JArr ss" "list_all goodSegment ss"
          by (cases v) simp_all
        with r2 [of ss] v e show False by auto
      qed
      with True v show ?thesis by simp
    next
      case False
      with r3 r4 nostr e show ?thesis by (cases "rule3 rt d") auto
    qed
  next
    assume "rule2 rt d \<and> \<not> goodSegments (field ''segments'' d)"
    with r2bad show "\<exists>e. extractTextFromData rt d = Inl e" by blast
  qed
  from r1 r2 [of segs] r2bad r3 r4 raises show ?thesis by blast
qed

text \<open>The four rules at work, each on a payload of the shape it is written for.\<close>

lemma extraction_examples:
  "extractTextFromData exampleRuntime (JStr ''hi'') = Inr (JStr ''hi'') \<and>
   extractTextFromData exampleRuntime
     (JObj [(''segments'', JArr [JObj [(''text'', JStr ''a'')], JObj [(''text'', JStr ''b'')]])]) =
     Inr (JStr ''a b'') \<and>
   extractTextFromData exampleRuntime (JObj [(''text'', JStr ''t'')]) = Inr (JStr ''t'') \<and>
   extractTextFromData exampleRuntime JNull = Inr (JStr ''null'') \<and>
   extractTextFromData exampleRuntime (JObj [(''note'', JStr ''a\<newline>b'')]) =
     Inr (JStr ([CHR ''{'', dquote] @ ''note'' @ [dquote, CHR '':'', dquote] @ ''a'' @
                [backslash] @ ''nb'' @ [dquote, CHR ''}'']))"
  by (simp add: extractTextFromData_def guardedProp_def join_def quoteJSONString_def
      quoteChar_def dquote_def backslash_def)

text \<open>
  Claim C7, on the code. The claim holds that the extraction never throws and always
  returns a string. A payload whose \<^verbatim>\<open>segments\<close> is a string is truthy there, rule 2
  calls \<^verbatim>\<open>map\<close> on it, and the extraction throws a TypeError. A payload whose
  \<^verbatim>\<open>text\<close> is the number five comes back from rule 3 as that number, not as a string.
\<close>

theorem extraction_raises_or_returns_no_string:
  "extractTextFromData exampleRuntime (JObj [(''segments'', JStr ''hello'')]) = Inl TypeError \<and>
   extractTextFromData exampleRuntime (JObj [(''text'', JNum 5)]) = Inr (JNum 5)"
  by (simp add: extractTextFromData_def guardedProp_def exampleRuntime_def)

section \<open>The tick\<close>

text \<open>The Batcher reads the fragment store and the tracker, and nothing else.\<close>

lemma getUnprocessedBatch_cong:
  assumes "webhooksFile s' = webhooksFile s" and "processedFile s' = processedFile s"
  shows "getUnprocessedBatch rt s' = getUnprocessedBatch rt s"
  using assms
  by (simp add: getUnprocessedBatch_def unprocessed_def loadWebhooks_def loadProcessed_def)

text \<open>The three ways a call of \<open>processBatch\<close> on a given text can end.\<close>

lemma processBatch_blank:
  "trim mainText = [] \<Longrightarrow> processBatch e now mainText lookAhead outputPath s = (Inr None, s)"
  by (simp add: processBatch_def)

lemma processBatch_failed:
  assumes "processBatch e now mainText lookAhead outputPath s = (Inl err, s1)"
  shows "webhooksFile s1 = webhooksFile s \<and> processedFile s1 = processedFile s \<and>
         stateFile s1 = stateFile s \<and> noteFiles s1 = noteFiles s \<and>
         currentNotesFilePath s1 = currentNotesFilePath s"
  using assms
  by (auto simp add: processBatch_def Let_def split: if_splits sum.splits)

lemma processBatch_content:
  assumes "processBatch e now mainText lookAhead outputPath s = (Inr (Some content), s1)"
  shows "content \<noteq> [] \<and> webhooksFile s1 = webhooksFile s \<and> processedFile s1 = processedFile s \<and>
         noteFiles s1 =
           (noteFiles s)((if strTruthy outputPath then the outputPath else outputFile) \<mapsto>
              (case noteFiles s (if strTruthy outputPath then the outputPath else outputFile) of
                 None \<Rightarrow> [] | Some old \<Rightarrow> old) @ content @ ''\<newline>\<newline>'')"
  using assms
  by (auto simp add: processBatch_def Let_def appendToOutput_def saveState_def
      split: if_splits sum.splits)

lemma processBatch_null:
  assumes "processBatch e now mainText lookAhead outputPath s = (Inr None, s1)"
  shows "trim mainText = [] \<and> s1 = s"
  using assms
  by (auto simp add: processBatch_def Let_def split: if_splits sum.splits)

lemma processBatch_gateway_failure:
  assumes nonblank: "trim mainText \<noteq> []"
    and prompt: "buildPrompt s (lastProcessed (loadState s)) mainText lookAhead = Inr prompt"
    and fails: "\<not> strTruthy (apiKey e) \<or> fst (llm e prompt) \<noteq> Some 0 \<or>
                trim (fst (snd (llm e prompt))) = []"
  shows "\<exists>err. processBatch e now mainText lookAhead outputPath s =
           (Inl err, s\<lparr>promptFile := Some prompt\<rparr>)"
  using assms
  by (auto simp add: processBatch_def Let_def callLLM_def split: prod.splits)

text \<open>
  Claim C1. When a tick has a batch to synthesise and the gateway call for it fails,
  because no key is set, the subprocess ends with a non-zero code, or its trimmed
  output is empty, the tick ends in failure; the tracker file, the state file, the
  fragment store and the note documents are as they were, and the Batcher run on the
  files the tick leaves returns what it returned before.
\<close>

theorem gateway_failure_commits_nothing:
  assumes batch: "getUnprocessedBatch rt s = Inr (Some b)"
    and nonblank: "trim (mergedText b) \<noteq> []"
    and prompt: "buildPrompt s (lastProcessed (loadState s)) (mergedText b) (nextText b) = Inr prompt"
    and fails: "\<not> strTruthy (apiKey e) \<or> fst (llm e prompt) \<noteq> Some 0 \<or>
                trim (fst (snd (llm e prompt))) = []"
  shows "(\<exists>err. fst (processWebhooks rt e now later s) = Failed err) \<and>
         processedFile (snd (processWebhooks rt e now later s)) = processedFile s \<and>
         stateFile (snd (processWebhooks rt e now later s)) = stateFile s \<and>
         webhooksFile (snd (processWebhooks rt e now later s)) = webhooksFile s \<and>
         noteFiles (snd (processWebhooks rt e now later s)) = noteFiles s \<and>
         getUnprocessedBatch rt (snd (processWebhooks rt e now later s)) =
           getUnprocessedBatch rt s"
proof -
  from processBatch_gateway_failure [OF nonblank prompt fails]
  obtain err where "processBatch e now (mergedText b) (nextText b) (currentNotesFilePath s) s =
      (Inl err, s\<lparr>promptFile := Some prompt\<rparr>)" by blast
  with batch have tick: "processWebhooks rt e now later s =
      (Failed err, s\<lparr>promptFile := Some prompt\<rparr>)"
    by (simp add: processWebhooks_def)
  have "getUnprocessedBatch rt (s\<lparr>promptFile := Some prompt\<rparr>) = getUnprocessedBatch rt s"
    by (rule getUnprocessedBatch_cong) simp_all
  with tick show ?thesis by simp
qed

lemma three_prompt:
  "buildPrompt (storing threeWords) (lastProcessed (loadState (storing threeWords)))
     (mergedText threeBatch) (nextText threeBatch) = Inr threePrompt"
  by (simp add: buildPrompt_def loadState_def loadUserStyle_def storing_def freshSystem_def
      threeBatch_def threePrompt_def styleSection_def escapeQuotes_def dquote_def)

lemma three_nonblank: "trim (mergedText threeBatch) \<noteq> []"
  by (simp add: threeBatch_def trim_def isWhiteSpace_def)

text \<open>The three words with no key set, and with a subprocess that prints a blank line.\<close>

theorem gateway_failure_commits_nothing_witness:
  "getUnprocessedBatch exampleRuntime (storing threeWords) = Inr (Some threeBatch) \<and>
   trim (mergedText threeBatch) \<noteq> [] \<and>
   buildPrompt (storing threeWords) (lastProcessed (loadState (storing threeWords)))
     (mergedText threeBatch) (nextText threeBatch) = Inr threePrompt \<and>
   \<not> strTruthy (apiKey noKey) \<and>
   trim (fst (snd (llm blankOutput threePrompt))) = [] \<and>
   processedFile (snd (processWebhooks exampleRuntime noKey 1 2 (storing threeWords))) =
     processedFile (storing threeWords) \<and>
   stateFile (snd (processWebhooks exampleRuntime noKey 1 2 (storing threeWords))) =
     stateFile (storing threeWords) \<and>
   getUnprocessedBatch exampleRuntime
     (snd (processWebhooks exampleRuntime noKey 1 2 (storing threeWords))) =
     Inr (Some threeBatch) \<and>
   processedFile (snd (processWebhooks exampleRuntime blankOutput 1 2 (storing threeWords))) =
     processedFile (storing threeWords) \<and>
   stateFile (snd (processWebhooks exampleRuntime blankOutput 1 2 (storing threeWords))) =
     stateFile (storing threeWords) \<and>
   getUnprocessedBatch exampleRuntime
     (snd (processWebhooks exampleRuntime blankOutput 1 2 (storing threeWords))) =
     Inr (Some threeBatch)"
proof -
  have nokey: "\<not> strTruthy (apiKey noKey)"
    by (simp add: apiKey_def orElse_def noKey_def)
  have blank: "trim (fst (snd (llm blankOutput threePrompt))) = []"
    by (simp add: blankOutput_def trim_def isWhiteSpace_def)
  from nokey have fails1: "\<not> strTruthy (apiKey noKey) \<or> fst (llm noKey threePrompt) \<noteq> Some 0 \<or>
      trim (fst (snd (llm noKey threePrompt))) = []" by simp
  from blank have fails2: "\<not> strTruthy (apiKey blankOutput) \<or>
      fst (llm blankOutput threePrompt) \<noteq> Some 0 \<or>
      trim (fst (snd (llm blankOutput threePrompt))) = []" by simp
  note first = gateway_failure_commits_nothing
    [OF three_batch three_nonblank three_prompt fails1, of 1 2]
  note second = gateway_failure_commits_nothing
    [OF three_batch three_nonblank three_prompt fails2, of 1 2]
  from first second three_batch three_nonblank three_prompt nokey blank
  show ?thesis by simp
qed

lemma markBatchProcessed_files:
  "webhooksFile (markBatchProcessed later batchItems s) = webhooksFile s \<and>
   noteFiles (markBatchProcessed later batchItems s) = noteFiles s \<and>
   stateFile (markBatchProcessed later batchItems s) = stateFile s"
  by (simp add: markBatchProcessed_def saveProcessed_def Let_def)

lemma markBatchProcessed_ids:
  "idsOrEmpty (loadProcessed (markBatchProcessed later batchItems s)) =
   idsOrEmpty (loadProcessed s) @ map webhook_id batchItems"
  by (simp add: markBatchProcessed_def saveProcessed_def Let_def loadProcessed_def idsOrEmpty_def)

text \<open>
  Claim C3 as it is written fails. The only unconsumed fragment holds a single space,
  so the merged text is blank: \<open>processBatch\<close> returns \<^verbatim>\<open>null\<close> before it builds a
  prompt, nothing is appended to any note document, and the tick goes on to mark the
  fragment consumed.
\<close>

theorem blank_batch_consumed_without_append:
  "unprocessed blankStore = [fragment ''1'' (JStr '' '')] \<and>
   fst (processWebhooks exampleRuntime withKey 1 2 blankStore) = Processed \<and>
   noteFiles (snd (processWebhooks exampleRuntime withKey 1 2 blankStore)) = noteFiles blankStore \<and>
   idsOrEmpty (loadProcessed (snd (processWebhooks exampleRuntime withKey 1 2 blankStore))) = [''1''] \<and>
   unprocessed (snd (processWebhooks exampleRuntime withKey 1 2 blankStore)) = []"
  by (simp add: processWebhooks_def getUnprocessedBatch_def unprocessed_def loadWebhooks_def
      loadProcessed_def idsOrEmpty_def blankStore_def storing_def freshSystem_def fragment_def
      batchSize_def extractTextFromData_def join_def mergeSeparator_def processBatch_def
      trim_def isWhiteSpace_def markBatchProcessed_def saveProcessed_def)

text \<open>How a call of \<open>processBatch\<close> that returns a text came by it.\<close>

lemma processBatch_content_source:
  assumes "processBatch e now mainText lookAhead outputPath s = (Inr (Some content), s1)"
  shows "trim mainText \<noteq> [] \<and>
         (\<exists>prompt. buildPrompt s (lastProcessed (loadState s)) mainText lookAhead = Inr prompt \<and>
                   strTruthy (apiKey e) \<and> fst (llm e prompt) = Some 0 \<and>
                   content = trim (fst (snd (llm e prompt))))"
  using assms
  by (auto simp add: processBatch_def Let_def callLLM_def
      split: if_splits sum.splits prod.splits)

lemma markBatchProcessed_consumed:
  "consumedIds (markBatchProcessed later batchItems s) =
   consumedIds s \<union> set (map webhook_id batchItems)"
  using markBatchProcessed_ids [of later batchItems s]
  by (simp only: idsOrEmpty_consumed [symmetric] set_append)

lemma markBatchProcessed_others:
  "promptFile (markBatchProcessed later batchItems s) = promptFile s"
  by (simp add: markBatchProcessed_def saveProcessed_def Let_def)

text \<open>
  Claim C3, amended. Whenever a tick changes the tracker file, the Batcher had
  returned a batch, the tick ended with that batch processed, and the ids recorded are
  the earlier ones followed by the ids of the batch's items. One of two things
  happened. Either the merged text is not blank, the gateway was called on the prompt
  built for this batch, with a key set and an exit code of zero, and its trimmed
  output, which is not empty, was appended with a blank line to the note document of
  the tick. Or the merged text of the batch is blank (empty once trimmed): then no
  note document, prompt file or state file changed, and the tick does the same
  whatever the environment, for it does not call the gateway.
\<close>

theorem consumed_only_after_append_or_blank_batch:
  assumes "processedFile (snd (processWebhooks rt e now later s)) \<noteq> processedFile s"
  shows "\<exists>b. getUnprocessedBatch rt s = Inr (Some b) \<and>
             fst (processWebhooks rt e now later s) = Processed \<and>
             idsOrEmpty (loadProcessed (snd (processWebhooks rt e now later s))) =
               idsOrEmpty (loadProcessed s) @ map webhook_id (items b) \<and>
             consumedIds (snd (processWebhooks rt e now later s)) =
               consumedIds s \<union> set (map webhook_id (items b)) \<and>
             ((\<exists>prompt content.
                 trim (mergedText b) \<noteq> [] \<and>
                 buildPrompt s (lastProcessed (loadState s)) (mergedText b) (nextText b) =
                   Inr prompt \<and>
                 strTruthy (apiKey e) \<and> fst (llm e prompt) = Some 0 \<and>
                 content = trim (fst (snd (llm e prompt))) \<and> content \<noteq> [] \<and>
                 noteFiles (snd (processWebhooks rt e now later s)) =
                   (noteFiles s)(notesPath s \<mapsto> notesBefore s @ content @ ''\<newline>\<newline>'')) \<or>
              (trim (mergedText b) = [] \<and>
                 noteFiles (snd (processWebhooks rt e now later s)) = noteFiles s \<and>
                 promptFile (snd (processWebhooks rt e now later s)) = promptFile s \<and>
                 stateFile (snd (processWebhooks rt e now later s)) = stateFile s \<and>
                 (\<forall>other. processWebhooks rt other now later s =
                    processWebhooks rt e now later s)))"
proof (cases "getUnprocessedBatch rt s")
  case (Inl err)
  with assms show ?thesis by (simp add: processWebhooks_def)
next
  case (Inr found)
  show ?thesis
  proof (cases found)
    case None
    with Inr assms show ?thesis by (simp add: processWebhooks_def)
  next
    case (Some b)
    note batch = \<open>getUnprocessedBatch rt s = Inr found\<close> [unfolded Some]
    obtain result s1
      where run: "processBatch e now (mergedText b) (nextText b) (currentNotesFilePath s) s =
        (result, s1)"
      by (cases "processBatch e now (mergedText b) (nextText b) (currentNotesFilePath s) s")
    show ?thesis
    proof (cases result)
      case (Inl err)
      with run batch have "processWebhooks rt e now later s = (Failed err, s1)"
        by (simp add: processWebhooks_def)
      moreover from run Inl have "processedFile s1 = processedFile s"
        using processBatch_failed by blast
      ultimately show ?thesis using assms by simp
    next
      case (Inr returned)
      with run batch
      have tick: "processWebhooks rt e now later s =
          (Processed, markBatchProcessed later (items b) s1)"
        by (simp add: processWebhooks_def)
      show ?thesis
      proof (cases returned)
        case None
        with run Inr have blank: "trim (mergedText b) = []" and same: "s1 = s"
          using processBatch_null by blast+
        have "processWebhooks rt other now later s =
            (Processed, markBatchProcessed later (items b) s)" for other
          using batch blank by (simp add: processWebhooks_def processBatch_blank)
        with tick same have "\<forall>other. processWebhooks rt other now later s =
            processWebhooks rt e now later s" by simp
        with tick same blank batch show ?thesis
          by (simp add: markBatchProcessed_files markBatchProcessed_ids
              markBatchProcessed_consumed markBatchProcessed_others)
      next
        case (Some content)
        from run Inr Some processBatch_content [of e now "mergedText b" "nextText b"
            "currentNotesFilePath s" s content s1]
        have appended: "content \<noteq> []" "processedFile s1 = processedFile s"
          "noteFiles s1 =
             (noteFiles s)(notesPath s \<mapsto> notesBefore s @ content @ ''\<newline>\<newline>'')"
          by (simp_all add: notesPath_def notesBefore_def)
        from run Inr Some processBatch_content_source [of e now "mergedText b" "nextText b"
            "currentNotesFilePath s" s content s1]
        obtain prompt where source: "trim (mergedText b) \<noteq> []"
          "buildPrompt s (lastProcessed (loadState s)) (mergedText b) (nextText b) = Inr prompt"
          "strTruthy (apiKey e)" "fst (llm e prompt) = Some 0"
          "content = trim (fst (snd (llm e prompt)))"
          by auto
        from appended(2) have tracker: "loadProcessed s1 = loadProcessed s"
          "consumedIds s1 = consumedIds s"
          by (simp_all add: loadProcessed_def consumedIds_def)
        have "\<exists>prompt content.
                 trim (mergedText b) \<noteq> [] \<and>
                 buildPrompt s (lastProcessed (loadState s)) (mergedText b) (nextText b) =
                   Inr prompt \<and>
                 strTruthy (apiKey e) \<and> fst (llm e prompt) = Some 0 \<and>
                 content = trim (fst (snd (llm e prompt))) \<and> content \<noteq> [] \<and>
                 noteFiles s1 =
                   (noteFiles s)(notesPath s \<mapsto> notesBefore s @ content @ ''\<newline>\<newline>'')"
          using source appended by blast
        with tick batch tracker show ?thesis
          by (simp add: markBatchProcessed_files markBatchProcessed_ids
              markBatchProcessed_consumed)
      qed
    qed
  qed
qed

text \<open>With a key set, the tick on the three words appends the note and marks all three.\<close>

lemma three_words_tick:
  "processWebhooks exampleRuntime withKey 1 2 (storing threeWords) =
     (Processed,
      (storing threeWords)
        \<lparr>processedFile := Some \<lparr>processedIds = Some [''1'', ''2'', ''3''],
                                 lastProcessedAt = Some 2, totalProcessed = Some 3\<rparr>,
         stateFile := Some \<lparr>lastProcessed = ''Note A'', processedCount = 1,
                             stateProcessedAt = Some 1\<rparr>,
         promptFile := Some threePrompt,
         noteFiles := (\<lambda>path. None)(outputFile \<mapsto> ''Note A\<newline>\<newline>'')\<rparr>)"
proof -
  have call: "callLLM withKey threePrompt = Inr ''Note A''"
    by (simp add: callLLM_def withKey_def apiKey_def orElse_def trim_def isWhiteSpace_def)
  have path: "currentNotesFilePath (storing threeWords) = None"
    "noteFiles (storing threeWords) = (\<lambda>path. None)"
    "processedFile (storing threeWords) = None"
    by (simp_all add: storing_def freshSystem_def)
  have "processBatch withKey 1 (mergedText threeBatch) (nextText threeBatch) None
      (storing threeWords) =
      (Inr (Some ''Note A''),
       (storing threeWords)
        \<lparr>promptFile := Some threePrompt,
          noteFiles := (\<lambda>path. None)(outputFile \<mapsto> ''Note A\<newline>\<newline>''),
          stateFile := Some \<lparr>lastProcessed = ''Note A'', processedCount = 1,
                             stateProcessedAt = Some 1\<rparr>\<rparr>)"
    unfolding processBatch_def Let_def three_prompt
    using three_nonblank
    by (simp add: call appendToOutput_def saveState_def path loadState_def storing_def
        freshSystem_def)
  then show ?thesis
    unfolding processWebhooks_def three_batch
    by (simp add: path markBatchProcessed_def saveProcessed_def loadProcessed_def
        idsOrEmpty_def threeBatch_def threeWords_def fragment_def storing_def freshSystem_def)
qed

theorem consumed_only_after_append_or_blank_batch_witness:
  "processedFile (snd (processWebhooks exampleRuntime withKey 1 2 (storing threeWords))) \<noteq>
     processedFile (storing threeWords) \<and>
   getUnprocessedBatch exampleRuntime (storing threeWords) = Inr (Some threeBatch) \<and>
   fst (processWebhooks exampleRuntime withKey 1 2 (storing threeWords)) = Processed \<and>
   consumedIds (snd (processWebhooks exampleRuntime withKey 1 2 (storing threeWords))) =
     consumedIds (storing threeWords) \<union> set (map webhook_id (items threeBatch)) \<and>
   consumedIds (snd (processWebhooks exampleRuntime withKey 1 2 (storing threeWords))) =
     {''1'', ''2'', ''3''} \<and>
   trim (mergedText threeBatch) \<noteq> [] \<and>
   buildPrompt (storing threeWords) (lastProcessed (loadState (storing threeWords)))
     (mergedText threeBatch) (nextText threeBatch) = Inr threePrompt \<and>
   strTruthy (apiKey withKey) \<and> fst (llm withKey threePrompt) = Some 0 \<and>
   trim (fst (snd (llm withKey threePrompt))) = ''Note A'' \<and>
   noteFiles (snd (processWebhooks exampleRuntime withKey 1 2 (storing threeWords))) =
     (noteFiles (storing threeWords))(notesPath (storing threeWords) \<mapsto>
        notesBefore (storing threeWords) @ ''Note A'' @ ''\<newline>\<newline>'') \<and>
   noteFiles (snd (processWebhooks exampleRuntime withKey 1 2 (storing threeWords))) outputFile =
     Some ''Note A\<newline>\<newline>''"
proof -
  let ?tick = "processWebhooks exampleRuntime withKey 1 2 (storing threeWords)"
  have changed: "processedFile (snd ?tick) \<noteq> processedFile (storing threeWords)"
    unfolding three_words_tick by (simp add: storing_def freshSystem_def)
  have appended: "noteFiles (snd ?tick) outputFile = Some ''Note A\<newline>\<newline>''"
    unfolding three_words_tick by simp
  have ids: "consumedIds (snd ?tick) = {''1'', ''2'', ''3''}"
    unfolding three_words_tick by (simp add: consumedIds_def consumedIn_def)
  have gateway: "strTruthy (apiKey withKey)" "fst (llm withKey threePrompt) = Some 0"
    "trim (fst (snd (llm withKey threePrompt))) = ''Note A''"
    by (simp_all add: withKey_def apiKey_def orElse_def trim_def isWhiteSpace_def)
  from consumed_only_after_append_or_blank_batch [OF changed]
  obtain b where b: "getUnprocessedBatch exampleRuntime (storing threeWords) = Inr (Some b)"
    and rest: "fst ?tick = Processed"
      "consumedIds (snd ?tick) = consumedIds (storing threeWords) \<union> set (map webhook_id (items b))"
      "(\<exists>prompt content.
          trim (mergedText b) \<noteq> [] \<and>
          buildPrompt (storing threeWords) (lastProcessed (loadState (storing threeWords)))
            (mergedText b) (nextText b) = Inr prompt \<and>
          strTruthy (apiKey withKey) \<and> fst (llm withKey prompt) = Some 0 \<and>
          content = trim (fst (snd (llm withKey prompt))) \<and> content \<noteq> [] \<and>
          noteFiles (snd ?tick) =
            (noteFiles (storing threeWords))(notesPath (storing threeWords) \<mapsto>
               notesBefore (storing threeWords) @ content @ ''\<newline>\<newline>'')) \<or>
       (trim (mergedText b) = [] \<and> noteFiles (snd ?tick) = noteFiles (storing threeWords) \<and>
          promptFile (snd ?tick) = promptFile (storing threeWords) \<and>
          stateFile (snd ?tick) = stateFile (storing threeWords) \<and>
          (\<forall>other. processWebhooks exampleRuntime other 1 2 (storing threeWords) = ?tick))"
    by blast
  from b three_batch have same: "b = threeBatch" by simp
  from rest(3) three_nonblank three_prompt gateway
  have "noteFiles (snd ?tick) =
     (noteFiles (storing threeWords))(notesPath (storing threeWords) \<mapsto>
        notesBefore (storing threeWords) @ ''Note A'' @ ''\<newline>\<newline>'')"
    unfolding same by auto
  with changed appended ids gateway rest(1,2) three_batch three_nonblank three_prompt
  show ?thesis unfolding same by simp
qed

section \<open>The end of a session\<close>

text \<open>
  Claim C4, on the code. Three fragments are unconsumed when \<^verbatim>\<open>POST /stop-recording\<close>
  arrives. The handler answers with the notes path and does nothing else: the three
  fragments are still unconsumed, no note document has changed, no state was saved.
  \<open>getAllUnprocessed\<close>, written for the final pass, is not called; called on this
  store it would merge the three fragments into two spaces, since it reads a
  \<^verbatim>\<open>text\<close> field the stored fragments do not have.
\<close>

theorem stop_recording_processes_nothing:
  "unprocessed (storing threeWords) = threeWords \<and>
   snd (stopRecording (storing threeWords)) = storing threeWords \<and>
   unprocessed (snd (stopRecording (storing threeWords))) = threeWords \<and>
   noteFiles (snd (stopRecording (storing threeWords))) = (\<lambda>path. None) \<and>
   stateFile (snd (stopRecording (storing threeWords))) = None \<and>
   all_mergedText (getAllUnprocessed exampleRuntime (storing threeWords)) = Inr ''  ''"
proof -
  have same: "snd (stopRecording (storing threeWords)) = storing threeWords"
    by (simp add: stopRecording_def)
  have files: "noteFiles (storing threeWords) = (\<lambda>path. None)"
    "stateFile (storing threeWords) = None"
    by (simp_all add: storing_def freshSystem_def)
  have "join exampleRuntime mergeSeparator (map (\<lambda>item. None) threeWords) = Inr ''  ''"
    by (simp add: join_def mergeSeparator_def threeWords_def)
  then have merged:
    "all_mergedText (getAllUnprocessed exampleRuntime (storing threeWords)) = Inr ''  ''"
    by (simp add: getAllUnprocessed_def three_unprocessed)
  from same files merged three_unprocessed show ?thesis by simp
qed

section \<open>Escaping in the prompt\<close>

text \<open>
  Claim C9, on the code. \<open>escapeQuotes\<close> puts a backslash before every double quote
  and leaves a backslash of the value as it is. A value that is one backslash is
  embedded unchanged, so the backslash escapes the closing quote of its literal, and
  the literal of "last one processed" runs on to the quote that opens the main text.
  A value that is a backslash and a quote is embedded as two backslashes and a quote:
  the literal ends at the embedded quote, before the end of the embedded value.
\<close>

theorem backslash_breaks_prompt_literal:
  "escapeQuotes [backslash] = [backslash] \<and>
   literalEnd (escapeQuotes [backslash] @ [dquote]) = None \<and>
   buildPrompt freshSystem [backslash] ''x'' (JStr []) =
     Inr (promptIntro @ promptRules @
          ''Last one processed: '' @ [dquote] @ [backslash] @ [dquote] @
          ''\<newline>Main text: '' @ [dquote] @ ''x'' @ [dquote] @
          ''\<newline>Next one to process: '' @ [dquote] @ [dquote] @
          promptQuestion) \<and>
   literalEnd ([backslash] @ [dquote] @ ''\<newline>Main text: '' @ [dquote] @ ''x'' @ [dquote]) =
     Some 14 \<and>
   escapeQuotes [backslash, dquote] = [backslash, backslash, dquote] \<and>
   literalEnd (escapeQuotes [backslash, dquote] @ [dquote]) = Some 2"
  by (simp add: escapeQuotes_def dquote_def backslash_def buildPrompt_def loadUserStyle_def
      freshSystem_def styleSection_def)

text \<open>The escaping does close the literal where it should for a value free of backslashes.\<close>

lemma literal_closed_without_backslash:
  "backslash \<notin> set v \<Longrightarrow>
   literalEnd (escapeQuotes v @ dquote # rest) = Some (length (escapeQuotes v))"
proof (induction v)
  case Nil
  then show ?case by (cases rest) (simp_all add: escapeQuotes_def)
next
  case (Cons c v)
  then have step: "literalEnd (escapeQuotes v @ dquote # rest) = Some (length (escapeQuotes v))"
    and plain: "c \<noteq> backslash" by auto
  obtain d cs where tail: "escapeQuotes v @ dquote # rest = d # cs"
    by (cases "escapeQuotes v @ dquote # rest") simp_all
  show ?case
  proof (cases "c = dquote")
    case True
    then have "escapeQuotes (c # v) = backslash # dquote # escapeQuotes v"
      by (simp add: escapeQuotes_def)
    with step show ?thesis by (simp add: dquote_def backslash_def)
  next
    case False
    then have "escapeQuotes (c # v) = c # escapeQuotes v"
      by (simp add: escapeQuotes_def)
    with step tail plain False show ?thesis by simp
  qed
qed

section \<open>The life of a stored fragment\<close>

text \<open>
  Each function, run from its first load to its last save with nothing in between,
  is a run of steps: at most one write to the store, made with what the function
  loaded from the state it started in, and writes to other files.
\<close>

lemma performAll_append: "performAll (xs @ ys) s = performAll ys (performAll xs s)"
  by (simp add: performAll_def)

lemma addWebhook_steps:
  "snd (addWebhook rt newId now payload s) =
     (if truthyOpt rt payload
      then perform (AddWebhookSave newId now (the payload) (loadWebhooks s)) s else s)"
  by (simp add: addWebhook_def addWebhookSave_def Let_def)

lemma cleanup_steps:
  "\<exists>steps. snd (cleanup cutoff s) =
       performAll (CleanupSaveWebhooks cutoff (loadWebhooks s) (loadProcessed s) # steps) s \<and>
     list_all (\<lambda>step. \<not> writesStore step) steps"
proof (cases "processedIds (loadProcessed s)")
  case None
  then have "snd (cleanup cutoff s) =
      performAll [CleanupSaveWebhooks cutoff (loadWebhooks s) (loadProcessed s)] s"
    by (simp add: cleanup_def cleanupSaveWebhooks_def performAll_def Let_def)
  then show ?thesis by (intro exI [of _ "[]"]) simp
next
  case (Some ids)
  let ?filtered = "filter (\<lambda>w. \<not> (receivedAt w < cutoff \<and> webhook_id w \<in> set ids)) (loadWebhooks s)"
  let ?p = "(loadProcessed s)\<lparr>processedIds :=
      Some (filter (\<lambda>i. i \<in> set (map webhook_id ?filtered)) ids)\<rparr>"
  from Some have "snd (cleanup cutoff s) =
      performAll [CleanupSaveWebhooks cutoff (loadWebhooks s) (loadProcessed s), SaveProcessed ?p] s"
    by (simp add: cleanup_def cleanupSaveWebhooks_def performAll_def Let_def)
  then show ?thesis by (intro exI [of _ "[SaveProcessed ?p]"]) simp
qed

lemma limitWebhooks_steps:
  "\<exists>steps. snd (limitWebhooks maxCount s) =
       performAll (LimitSaveWebhooks maxCount (loadWebhooks s) # steps) s \<and>
     list_all (\<lambda>step. \<not> writesStore step) steps"
proof (cases "int (length (loadWebhooks s)) > maxCount")
  case False
  then have "snd (limitWebhooks maxCount s) =
      performAll [LimitSaveWebhooks maxCount (loadWebhooks s)] s"
    by (simp add: limitWebhooks_def limitSaveWebhooks_def performAll_def Let_def)
  then show ?thesis by (intro exI [of _ "[]"]) simp
next
  case True
  let ?s1 = "saveWebhooks (sliceFromEnd maxCount (loadWebhooks s)) s"
  show ?thesis
  proof (cases "processedIds (loadProcessed ?s1)")
    case None
    with True have "snd (limitWebhooks maxCount s) =
        performAll [LimitSaveWebhooks maxCount (loadWebhooks s)] s"
      by (simp add: limitWebhooks_def limitSaveWebhooks_def performAll_def Let_def)
    then show ?thesis by (intro exI [of _ "[]"]) simp
  next
    case (Some ids)
    let ?p = "(loadProcessed ?s1)\<lparr>processedIds :=
        Some (filter (\<lambda>i. i \<in> set (map webhook_id (sliceFromEnd maxCount (loadWebhooks s)))) ids)\<rparr>"
    from True Some have "snd (limitWebhooks maxCount s) =
        performAll [LimitSaveWebhooks maxCount (loadWebhooks s), SaveProcessed ?p] s"
      by (simp add: limitWebhooks_def limitSaveWebhooks_def performAll_def Let_def)
    then show ?thesis by (intro exI [of _ "[SaveProcessed ?p]"]) simp
  qed
qed

lemma markBatchProcessed_steps:
  "\<exists>steps. markBatchProcessed later batchItems s = performAll steps s \<and>
     list_all (\<lambda>step. \<not> writesStore step) steps"
proof (cases "batchItems = []")
  case True
  then have "markBatchProcessed later batchItems s = performAll [] s"
    by (simp add: markBatchProcessed_def performAll_def)
  then show ?thesis by (intro exI [of _ "[]"]) simp
next
  case False
  then obtain p where "markBatchProcessed later batchItems s = performAll [SaveProcessed p] s"
    by (simp add: markBatchProcessed_def performAll_def Let_def)
  then show ?thesis by (intro exI [of _ "[SaveProcessed p]"]) simp
qed

lemma processBatch_steps:
  "\<exists>steps. snd (processBatch e now mainText lookAhead outputPath s) = performAll steps s \<and>
     list_all (\<lambda>step. \<not> writesStore step) steps"
proof -
  let ?run = "snd (processBatch e now mainText lookAhead outputPath s)"
  have idle: ?thesis if "?run = s"
    using that by (intro exI [of _ "[]"]) (simp add: performAll_def)
  show ?thesis
  proof (cases "trim mainText = []")
    case True
    then show ?thesis by (intro idle) (simp add: processBatch_def)
  next
    case False
    show ?thesis
    proof (cases "buildPrompt s (lastProcessed (loadState s)) mainText lookAhead")
      case (Inl err)
      with False show ?thesis by (intro idle) (simp add: processBatch_def Let_def)
    next
      case (Inr prompt)
      have failed: ?thesis if "?run = s\<lparr>promptFile := Some prompt\<rparr>"
        using that by (intro exI [of _ "[SavePrompt prompt]"]) (simp add: performAll_def)
      show ?thesis
      proof (cases "callLLM e prompt")
        case (Inl err)
        with False \<open>buildPrompt s (lastProcessed (loadState s)) mainText lookAhead = Inr prompt\<close>
        show ?thesis by (intro failed) (simp add: processBatch_def Let_def)
      next
        case (Inr content)
        note built = \<open>buildPrompt s (lastProcessed (loadState s)) mainText lookAhead = Inr prompt\<close>
        show ?thesis
        proof (cases "content = []")
          case True
          with False built Inr show ?thesis
            by (intro failed) (simp add: processBatch_def Let_def)
        next
          case nonempty: False
          let ?path = "if strTruthy outputPath then the outputPath else outputFile"
          let ?st = "\<lparr>lastProcessed = content, processedCount = processedCount (loadState s) + 1,
              stateProcessedAt = Some now\<rparr>"
          from False built Inr nonempty
          have "?run = performAll [SavePrompt prompt, AppendToOutput content ?path, SaveState ?st] s"
            by (simp add: processBatch_def Let_def performAll_def)
          then show ?thesis
            by (intro exI [of _ "[SavePrompt prompt, AppendToOutput content ?path, SaveState ?st]"])
              simp
        qed
      qed
    qed
  qed
qed

lemma processWebhooks_steps:
  "\<exists>steps. snd (processWebhooks rt e now later s) = performAll steps s \<and>
     list_all (\<lambda>step. \<not> writesStore step) steps"
proof -
  have idle: ?thesis if "snd (processWebhooks rt e now later s) = s"
    using that by (intro exI [of _ "[]"]) (simp add: performAll_def)
  show ?thesis
  proof (cases "getUnprocessedBatch rt s")
    case (Inl err)
    then show ?thesis by (intro idle) (simp add: processWebhooks_def)
  next
    case (Inr found)
    show ?thesis
    proof (cases found)
      case None
      with Inr show ?thesis by (intro idle) (simp add: processWebhooks_def)
    next
      case (Some b)
      obtain result s1
        where run: "processBatch e now (mergedText b) (nextText b) (currentNotesFilePath s) s =
          (result, s1)"
        by (cases "processBatch e now (mergedText b) (nextText b) (currentNotesFilePath s) s")
      from processBatch_steps [of e now "mergedText b" "nextText b" "currentNotesFilePath s" s] run
      obtain first where first: "s1 = performAll first s"
        "list_all (\<lambda>step. \<not> writesStore step) first" by auto
      show ?thesis
      proof (cases result)
        case (Inl err)
        with run Inr Some have "snd (processWebhooks rt e now later s) = s1"
          by (simp add: processWebhooks_def)
        with first show ?thesis by blast
      next
        case (Inr returned)
        with run \<open>getUnprocessedBatch rt s = Inr found\<close> Some
        have "snd (processWebhooks rt e now later s) = markBatchProcessed later (items b) s1"
          by (simp add: processWebhooks_def)
        moreover from markBatchProcessed_steps [of later "items b" s1]
        obtain second where "markBatchProcessed later (items b) s1 = performAll second s1"
          "list_all (\<lambda>step. \<not> writesStore step) second" by blast
        ultimately have "snd (processWebhooks rt e now later s) = performAll (first @ second) s \<and>
            list_all (\<lambda>step. \<not> writesStore step) (first @ second)"
          using first by (simp add: performAll_append)
        then show ?thesis by blast
      qed
    qed
  qed
qed

lemma other_functions_steps:
  "resetProcessed s =
     perform (SaveProcessed \<lparr>processedIds = Some [], lastProcessedAt = None,
                              totalProcessed = None\<rparr>) s"
  "resetState s =
     perform (SaveState \<lparr>lastProcessed = [], processedCount = 0, stateProcessedAt = None\<rparr>) s"
  "snd (startRecording currentFilePath fallbackPath s) =
     perform (SetNotesPath (if strTruthy currentFilePath then currentFilePath
                            else if strTruthy fallbackPath then fallbackPath
                            else Some outputFile)) s"
  "snd (stopRecording s) = s"
  by (simp_all add: resetProcessed_def resetState_def startRecording_def stopRecording_def
      Let_def)

text \<open>A write to another file leaves the store as it is.\<close>

lemma other_write_keeps_store:
  "\<not> writesStore step \<Longrightarrow> storedFragments (perform step s) = storedFragments s"
  by (cases step)
    (simp_all add: storedFragments_def saveProcessed_def saveState_def appendToOutput_def)

text \<open>What \<^verbatim>\<open>slice(-maxCount)\<close> keeps of a list longer than \<open>maxCount\<close>.\<close>

lemma sliceFromEnd_kept:
  "sliceFromEnd maxCount xs =
     (if 0 < maxCount \<and> maxCount < int (length xs) then drop (length xs - nat maxCount) xs
      else if maxCount < 0 then drop (nat (- maxCount)) xs
      else xs)"
proof -
  have "nat (int (length xs) - maxCount) = length xs - nat maxCount" if "0 < maxCount"
    using that by linarith
  then show ?thesis
    by (auto simp add: sliceFromEnd_def Let_def max_def min_def)
qed

text \<open>
  Claim C8, amended. Take any write of the system that is fresh: what its call loaded
  is what the files hold when it saves. It changes no stored fragment: the store
  after it is a subsequence of the store before it, followed, for \<open>addWebhook\<close> only,
  by the one new fragment. A fragment that was stored and is gone left through the
  cleanup, and then it is older than the cutoff and its id is consumed, or through
  \<open>limitWebhooks\<close> on a store longer than its bound. The cleanup keeps exactly the
  fragments that are not both older than the cutoff and consumed. \<open>limitWebhooks\<close>
  with a positive bound below the length of the store keeps exactly its last
  \<open>maxCount\<close> fragments, consumed or not; with the bound zero it keeps the whole
  store, and with a negative bound it drops the first \<open>- maxCount\<close> fragments.
\<close>

theorem fragments_leave_by_cleanup_or_limit:
  assumes "fresh step s"
  shows "(\<exists>kept added.
            storedFragments (perform step s) = kept @ added \<and>
            subseq kept (storedFragments s) \<and>
            (added = [] \<or>
             (\<exists>newId now payload webhooks.
                step = AddWebhookSave newId now payload webhooks \<and> kept = storedFragments s \<and>
                added = [\<lparr>webhook_id = newId, data = payload, receivedAt = now\<rparr>]))) \<and>
         (\<forall>w. w \<in> set (storedFragments s) \<and> w \<notin> set (storedFragments (perform step s)) \<longrightarrow>
            (\<exists>cutoff webhooks processed.
               step = CleanupSaveWebhooks cutoff webhooks processed \<and>
               receivedAt w < cutoff \<and> webhook_id w \<in> consumedIds s) \<or>
            (\<exists>maxCount webhooks.
               step = LimitSaveWebhooks maxCount webhooks \<and>
               maxCount < int (length (storedFragments s)))) \<and>
         (\<forall>cutoff webhooks processed.
            step = CleanupSaveWebhooks cutoff webhooks processed \<longrightarrow>
            storedFragments (perform step s) =
              filter (\<lambda>w. \<not> (receivedAt w < cutoff \<and> webhook_id w \<in> consumedIds s))
                (storedFragments s)) \<and>
         (\<forall>maxCount webhooks.
            step = LimitSaveWebhooks maxCount webhooks \<longrightarrow>
            storedFragments (perform step s) =
              (if 0 < maxCount \<and> maxCount < int (length (storedFragments s))
               then drop (length (storedFragments s) - nat maxCount) (storedFragments s)
               else if maxCount < 0 then drop (nat (- maxCount)) (storedFragments s)
               else storedFragments s))"
proof -
  let ?old = "storedFragments s"
  let ?new = "storedFragments (perform step s)"
  have untouched: ?thesis if same: "?new = ?old" and other: "\<not> writesStore step"
  proof -
    from same have "?new = ?old @ [] \<and> subseq ?old ?old" by simp
    then have "\<exists>kept added. ?new = kept @ added \<and> subseq kept ?old \<and>
        (added = [] \<or>
         (\<exists>newId now payload webhooks.
            step = AddWebhookSave newId now payload webhooks \<and> kept = ?old \<and>
            added = [\<lparr>webhook_id = newId, data = payload, receivedAt = now\<rparr>]))"
      by (intro exI [of _ ?old] exI [of _ "[]"]) simp
    with same other show ?thesis by (cases step) simp_all
  qed
  show ?thesis
  proof (cases "writesStore step")
    case False
    then show ?thesis by (intro untouched other_write_keeps_store)
  next
    case True
    then consider
        (add) newId now payload webhooks where "step = AddWebhookSave newId now payload webhooks"
      | (clean) cutoff webhooks processed where "step = CleanupSaveWebhooks cutoff webhooks processed"
      | (limit) maxCount webhooks where "step = LimitSaveWebhooks maxCount webhooks"
      by (cases step) simp_all
    then show ?thesis
    proof cases
      case add
      with assms have new: "?new = ?old @ [\<lparr>webhook_id = newId, data = payload, receivedAt = now\<rparr>]"
        by (simp add: addWebhookSave_def Let_def saveWebhooks_def storedFragments_def)
      then have "?new = ?old @ [\<lparr>webhook_id = newId, data = payload, receivedAt = now\<rparr>] \<and>
          subseq ?old ?old" by simp
      with add have first: "\<exists>kept added. ?new = kept @ added \<and> subseq kept ?old \<and>
        (added = [] \<or>
         (\<exists>newId now payload webhooks.
            step = AddWebhookSave newId now payload webhooks \<and> kept = ?old \<and>
            added = [\<lparr>webhook_id = newId, data = payload, receivedAt = now\<rparr>]))"
        by (intro exI [of _ ?old]
            exI [of _ "[\<lparr>webhook_id = newId, data = payload, receivedAt = now\<rparr>]"]) simp
      from new have "set ?old \<subseteq> set ?new" by auto
      with first add show ?thesis by auto
    next
      case clean
      let ?keep = "\<lambda>w. \<not> (receivedAt w < cutoff \<and> webhook_id w \<in> consumedIds s)"
      from clean assms have snapshot: "webhooks = ?old" "consumedIn processed = consumedIds s"
        by simp_all
      have new: "?new = filter ?keep ?old"
      proof (cases "processedIds processed")
        case None
        with snapshot(2) have "consumedIds s = {}" by (simp add: consumedIn_def)
        with None clean show ?thesis by (simp add: cleanupSaveWebhooks_def)
      next
        case (Some ids)
        with snapshot(2) have "set ids = consumedIds s" by (simp add: consumedIn_def)
        with Some clean snapshot(1) show ?thesis
          by (simp add: cleanupSaveWebhooks_def Let_def saveWebhooks_def storedFragments_def)
      qed
      then have "?new = filter ?keep ?old @ [] \<and> subseq (filter ?keep ?old) ?old" by simp
      then have first: "\<exists>kept added. ?new = kept @ added \<and> subseq kept ?old \<and>
        (added = [] \<or>
         (\<exists>newId now payload webhooks.
            step = AddWebhookSave newId now payload webhooks \<and> kept = ?old \<and>
            added = [\<lparr>webhook_id = newId, data = payload, receivedAt = now\<rparr>]))"
        by (intro exI [of _ "filter ?keep ?old"] exI [of _ "[]"]) simp
      from new have "\<forall>w. w \<in> set ?old \<and> w \<notin> set ?new \<longrightarrow>
          receivedAt w < cutoff \<and> webhook_id w \<in> consumedIds s" by auto
      with first new clean show ?thesis by simp
    next
      case limit
      let ?kept = "if 0 < maxCount \<and> maxCount < int (length ?old)
               then drop (length ?old - nat maxCount) ?old
               else if maxCount < 0 then drop (nat (- maxCount)) ?old
               else ?old"
      from limit assms have snapshot: "webhooks = ?old" by simp
      have new: "?new = ?kept"
      proof (cases "maxCount < int (length ?old)")
        case True
        with limit snapshot have "?new = sliceFromEnd maxCount ?old"
          by (simp add: limitSaveWebhooks_def saveWebhooks_def storedFragments_def)
        with True show ?thesis by (simp add: sliceFromEnd_kept)
      next
        case False
        with limit snapshot have "?new = ?old"
          by (simp add: limitSaveWebhooks_def)
        with False show ?thesis by simp
      qed
      then have "\<exists>n. ?new = drop n ?old"
        by (metis drop0)
      then obtain n where n: "?new = drop n ?old" ..
      then have "?new = drop n ?old @ [] \<and> subseq (drop n ?old) ?old"
        by (simp add: suffix_imp_subseq suffix_drop)
      then have first: "\<exists>kept added. ?new = kept @ added \<and> subseq kept ?old \<and>
        (added = [] \<or>
         (\<exists>newId now payload webhooks.
            step = AddWebhookSave newId now payload webhooks \<and> kept = ?old \<and>
            added = [\<lparr>webhook_id = newId, data = payload, receivedAt = now\<rparr>]))"
        by (intro exI [of _ "drop n ?old"] exI [of _ "[]"]) simp
      have "maxCount < int (length ?old)" if "w \<in> set ?old" "w \<notin> set ?new" for w
      proof (rule ccontr)
        assume "\<not> maxCount < int (length ?old)"
        with new have "?new = ?old" by (simp split: if_splits)
        with that show False by simp
      qed
      with first new limit show ?thesis by auto
    qed
  qed
qed

text \<open>
  Claim C8 as it is written fails: \<open>limitWebhooks\<close> with the bound two, on the three
  words of which none is consumed, deletes the first.
\<close>

theorem limitWebhooks_deletes_unconsumed:
  "fragment ''1'' (JStr ''Hello'') \<in> set (unprocessed (storing threeWords)) \<and>
   loadWebhooks (snd (limitWebhooks 2 (storing threeWords))) =
     [fragment ''2'' (JStr ''big''), fragment ''3'' (JStr ''world'')] \<and>
   fragment ''1'' (JStr ''Hello'') \<notin> set (loadWebhooks (snd (limitWebhooks 2 (storing threeWords))))"
proof -
  have before: "fragment ''1'' (JStr ''Hello'') \<in> set (unprocessed (storing threeWords))"
    unfolding three_unprocessed by (simp add: threeWords_def)
  have after: "loadWebhooks (snd (limitWebhooks 2 (storing threeWords))) =
     [fragment ''2'' (JStr ''big''), fragment ''3'' (JStr ''world'')]"
    by (simp add: limitWebhooks_def Let_def loadWebhooks_def storing_def freshSystem_def
        threeWords_def sliceFromEnd_def saveWebhooks_def saveProcessed_def loadProcessed_def)
  have "fragment ''1'' (JStr ''Hello'') \<notin>
      set [fragment ''2'' (JStr ''big''), fragment ''3'' (JStr ''world'')]"
    by (simp add: fragment_def)
  with before after show ?thesis by simp
qed

text \<open>
  A fresh cleanup removes the consumed first word and keeps the two others; a fresh
  \<open>limitWebhooks\<close> with the bound two keeps the last two words; a fresh ingestion
  appends a fourth.
\<close>

theorem fragments_leave_by_cleanup_or_limit_witness:
  "fresh (CleanupSaveWebhooks 5 threeWords
     \<lparr>processedIds = Some [''1''], lastProcessedAt = Some 1, totalProcessed = Some 1\<rparr>)
     firstConsumed \<and>
   storedFragments firstConsumed = threeWords \<and>
   storedFragments (perform (CleanupSaveWebhooks 5 threeWords
     \<lparr>processedIds = Some [''1''], lastProcessedAt = Some 1, totalProcessed = Some 1\<rparr>)
     firstConsumed) =
     [fragment ''2'' (JStr ''big''), fragment ''3'' (JStr ''world'')] \<and>
   receivedAt (fragment ''1'' (JStr ''Hello'')) < 5 \<and>
   webhook_id (fragment ''1'' (JStr ''Hello'')) \<in> consumedIds firstConsumed \<and>
   fresh (LimitSaveWebhooks 2 threeWords) (storing threeWords) \<and>
   storedFragments (perform (LimitSaveWebhooks 2 threeWords) (storing threeWords)) =
     [fragment ''2'' (JStr ''big''), fragment ''3'' (JStr ''world'')] \<and>
   fresh (AddWebhookSave ''4'' 9 (JStr ''again'') threeWords) (storing threeWords) \<and>
   storedFragments (perform (AddWebhookSave ''4'' 9 (JStr ''again'') threeWords)
     (storing threeWords)) =
     threeWords @ [\<lparr>webhook_id = ''4'', data = JStr ''again'', receivedAt = 9\<rparr>]"
proof -
  let ?tracker = "\<lparr>processedIds = Some [''1''], lastProcessedAt = Some 1,
      totalProcessed = Some 1\<rparr>"
  let ?clean = "CleanupSaveWebhooks 5 threeWords ?tracker :: int step"
  let ?limit = "LimitSaveWebhooks 2 threeWords :: int step"
  let ?add = "AddWebhookSave ''4'' 9 (JStr ''again'') threeWords :: int step"
  let ?w = "fragment ''1'' (JStr ''Hello'') :: int webhook"
  have stored: "storedFragments firstConsumed = threeWords"
    "storedFragments (storing threeWords) = threeWords"
    by (simp_all add: storedFragments_def firstConsumed_def storing_def freshSystem_def)
  have ids: "consumedIds firstConsumed = {''1''}"
    by (simp add: consumedIds_def consumedIn_def firstConsumed_def)
  have fresh1: "fresh ?clean firstConsumed"
    by (simp add: stored ids consumedIn_def)
  have fresh2: "fresh ?limit (storing threeWords)" "fresh ?add (storing threeWords)"
    by (simp_all add: stored)
  have old: "receivedAt ?w < 5" "webhook_id ?w \<in> consumedIds firstConsumed"
    by (simp_all add: ids fragment_def)
  have three: "length threeWords = 3" by (simp add: threeWords_def)
  from fragments_leave_by_cleanup_or_limit [OF fresh1]
  have "storedFragments (perform ?clean firstConsumed) =
      filter (\<lambda>w. \<not> (receivedAt w < 5 \<and> webhook_id w \<in> consumedIds firstConsumed))
        (storedFragments firstConsumed)"
    by blast
  then have cleaned: "storedFragments (perform ?clean firstConsumed) =
      [fragment ''2'' (JStr ''big''), fragment ''3'' (JStr ''world'')]"
    unfolding stored ids by (simp add: threeWords_def fragment_def)
  from fragments_leave_by_cleanup_or_limit [OF fresh2(1)]
  have "storedFragments (perform ?limit (storing threeWords)) =
      (if (0::int) < 2 \<and> 2 < int (length (storedFragments (storing threeWords)))
       then drop (length (storedFragments (storing threeWords)) - nat 2)
              (storedFragments (storing threeWords))
       else if (2::int) < 0 then drop (nat (- 2)) (storedFragments (storing threeWords))
       else storedFragments (storing threeWords))"
    by blast
  then have limited: "storedFragments (perform ?limit (storing threeWords)) =
      [fragment ''2'' (JStr ''big''), fragment ''3'' (JStr ''world'')]"
    unfolding stored three by (simp add: threeWords_def)
  from fragments_leave_by_cleanup_or_limit [OF fresh2(2)]
  obtain kept added where "storedFragments (perform ?add (storing threeWords)) = kept @ added"
    "added = [] \<or> (kept = storedFragments (storing threeWords) \<and>
       added = [\<lparr>webhook_id = ''4'', data = JStr ''again'', receivedAt = 9\<rparr>])"
    by auto
  have added: "storedFragments (perform ?add (storing threeWords)) =
      threeWords @ [\<lparr>webhook_id = ''4'', data = JStr ''again'', receivedAt = 9\<rparr>]"
    by (simp add: addWebhookSave_def Let_def saveWebhooks_def storedFragments_def)
  from fresh1 fresh2 stored(1) cleaned old limited added show ?thesis by simp
qed

text \<open>
  A write that is not fresh saves what its call loaded before and drops what was
  stored since. Two calls of \<^verbatim>\<open>addWebhook\<close> load the store of the three words, one
  after the other, before either saves: the second save removes the fragment the
  first has stored.
\<close>

lemma stale_save_drops_a_fragment:
  "storedFragments (perform (AddWebhookSave ''4'' 8 (JStr ''first'') threeWords)
     (storing threeWords)) =
     threeWords @ [\<lparr>webhook_id = ''4'', data = JStr ''first'', receivedAt = 8\<rparr>] \<and>
   \<not> fresh (AddWebhookSave ''5'' 9 (JStr ''second'') threeWords)
       (perform (AddWebhookSave ''4'' 8 (JStr ''first'') threeWords) (storing threeWords)) \<and>
   storedFragments (perform (AddWebhookSave ''5'' 9 (JStr ''second'') threeWords)
     (perform (AddWebhookSave ''4'' 8 (JStr ''first'') threeWords) (storing threeWords))) =
     threeWords @ [\<lparr>webhook_id = ''5'', data = JStr ''second'', receivedAt = 9\<rparr>]"
  by (simp add: addWebhookSave_def Let_def saveWebhooks_def storedFragments_def)

end
